theory Spec2Isabelle
  imports Complex_Main
begin

section \<open>Python values, errors and sequences\<close>

text \<open>
  The constraint blocks of \<^verbatim>\<open>oemof.solph\<close> (\<^verbatim>\<open>blocks.py\<close>, \<^verbatim>\<open>custom.py\<close>) are embedded as
  functions that build symbolic constraints. Nodes are identified by their label. Python
  numbers (ints and floats) are abstracted to \<^typ>\<open>real\<close>; every exception of the source
  is a value of \<open>error\<close>.
\<close>

type_synonym node = string

datatype error =
  ValueError | KeyError | IndexError | TypeError | AttributeError
  | ZeroDivisionError | NameError

datatype pyval = PNone | PBool bool | PNum real | PStr string

text \<open>Python's \<^verbatim>\<open>==\<close> on these values: \<^verbatim>\<open>True == 1\<close> and \<^verbatim>\<open>False == 0\<close> hold.\<close>

fun py_equal :: "pyval \<Rightarrow> pyval \<Rightarrow> bool" where
  "py_equal (PBool a) (PNum x) = (x = (if a then 1 else 0))"
| "py_equal (PNum x) (PBool a) = (x = (if a then 1 else 0))"
| "py_equal a b = (a = b)"

text \<open>\<^verbatim>\<open>x in xs\<close> on a list compares with \<^verbatim>\<open>==\<close>; \<^verbatim>\<open>x is True\<close> holds of the bool only.\<close>

definition py_in :: "pyval \<Rightarrow> pyval list \<Rightarrow> bool" where
  "py_in x xs = list_ex (py_equal x) xs"

definition is_True :: "pyval \<Rightarrow> bool" where
  "is_True x = (x = PBool True)"

definition ebind :: "error + 'a \<Rightarrow> ('a \<Rightarrow> error + 'b) \<Rightarrow> error + 'b" where
  "ebind r f = (case r of Inl e \<Rightarrow> Inl e | Inr x \<Rightarrow> f x)"

text \<open>
  Modelled from the spec: \<^verbatim>\<open>plumbing.sequence\<close> is not among the sources. The spec calls
  these attributes "scalar or per-timestep sequence attributes": a scalar is repeated at
  every index (and has length 0, as the default-valued list of oemof has), a list is
  indexed and raises IndexError out of range.
\<close>

datatype 'a sequence = Repeated 'a | Listed "'a list"

fun seq_at :: "'a sequence \<Rightarrow> nat \<Rightarrow> error + 'a" where
  "seq_at (Repeated d) t = Inr d"
| "seq_at (Listed xs) t = (if t < length xs then Inr (xs ! t) else Inl IndexError)"

fun seq_len :: "'a sequence \<Rightarrow> nat" where
  "seq_len (Repeated d) = 0"
| "seq_len (Listed xs) = length xs"

text \<open>Loops and comprehensions that stop at the first exception.\<close>

fun for_loop :: "'a list \<Rightarrow> ('a \<Rightarrow> 's \<Rightarrow> error + 's) \<Rightarrow> 's \<Rightarrow> error + 's" where
  "for_loop [] body s = Inr s"
| "for_loop (x # xs) body s =
     (case body x s of Inl e \<Rightarrow> Inl e | Inr s' \<Rightarrow> for_loop xs body s')"

fun emap :: "('a \<Rightarrow> error + 'b) \<Rightarrow> 'a list \<Rightarrow> error + 'b list" where
  "emap f [] = Inr []"
| "emap f (x # xs) =
     (case f x of Inl e \<Rightarrow> Inl e
      | Inr y \<Rightarrow> (case emap f xs of Inl e \<Rightarrow> Inl e | Inr ys \<Rightarrow> Inr (y # ys)))"

definition getitem :: "('k \<rightharpoonup> 'v) \<Rightarrow> 'k \<Rightarrow> error + 'v" where
  "getitem d k = (case d k of None \<Rightarrow> Inl KeyError | Some v \<Rightarrow> Inr v)"

text \<open>\<^verbatim>\<open>xs[-1]\<close> on a Python list.\<close>

definition py_last :: "'a list \<Rightarrow> error + 'a" where
  "py_last xs = (if xs = [] then Inl IndexError else Inr (last xs))"

text \<open>Arithmetic on an attribute that may be \<^verbatim>\<open>None\<close> raises TypeError.\<close>

definition number :: "real option \<Rightarrow> error + real" where
  "number x = (case x of None \<Rightarrow> Inl TypeError | Some r \<Rightarrow> Inr r)"

section \<open>Symbolic expressions and constraints\<close>

text \<open>
  The variables of the optimisation model, named by the component that owns them and
  their index. Expressions are kept as the source builds them (an operation between a
  variable and a number is an expression, never a number); \<open>eval\<close> gives their value
  under a valuation of the variables.
\<close>

datatype var =
    flow node node nat
  | positive_flow_gradient node node nat
  | negative_flow_gradient node node nat
  | Storage_capacity node nat
  | InvestmentStorage_capacity node nat
  | InvestmentStorage_invest node
  | InvestmentFlow_invest node node
  | Discrete_status node node nat
  | voltage_angle node nat

datatype expr =
    Num real
  | V var
  | Add expr expr
  | Sub expr expr
  | Mul expr expr
  | Div expr expr
  | Neg expr

datatype constr = Rel_eq expr expr | Rel_le expr expr | Rel_ge expr expr

text \<open>What a Python comparison of two operands returns: a bool when both are numbers,
  a relational expression otherwise.\<close>

datatype pyrel = PyBool bool | Rel constr

fun eval :: "(var \<Rightarrow> real) \<Rightarrow> expr \<Rightarrow> real" where
  "eval v (Num x) = x"
| "eval v (V x) = v x"
| "eval v (Add a b) = eval v a + eval v b"
| "eval v (Sub a b) = eval v a - eval v b"
| "eval v (Mul a b) = eval v a * eval v b"
| "eval v (Div a b) = eval v a / eval v b"
| "eval v (Neg a) = - eval v a"

fun holds :: "(var \<Rightarrow> real) \<Rightarrow> constr \<Rightarrow> bool" where
  "holds v (Rel_eq a b) = (eval v a = eval v b)"
| "holds v (Rel_le a b) = (eval v a \<le> eval v b)"
| "holds v (Rel_ge a b) = (eval v a \<ge> eval v b)"

text \<open>\<^verbatim>\<open>sum(...)\<close> starts from the number 0 and adds the items from the left.\<close>

definition py_sum :: "expr list \<Rightarrow> expr" where
  "py_sum xs = foldl Add (Num 0) xs"

fun py_eq :: "expr \<Rightarrow> expr \<Rightarrow> pyrel" where
  "py_eq (Num x) (Num y) = PyBool (x = y)"
| "py_eq a b = Rel (Rel_eq a b)"

text \<open>Division of an expression by a number; by zero it raises.\<close>

definition py_div :: "expr \<Rightarrow> real \<Rightarrow> error + expr" where
  "py_div e x = (if x = 0 then Inl ZeroDivisionError else Inr (Div e (Num x)))"

section \<open>Model components of the modelling library\<close>

text \<open>
  An indexed variable holds, per index, its bounds, domain, value and fixed flag; an
  indexed constraint holds one relation per index. \<open>Var\<close> and \<open>Constraint\<close> call their
  rule once for every index of the index set.
\<close>

datatype domain = Reals | NonNegativeReals | Binary

record 'b var_data =
  var_lb :: 'b
  var_ub :: 'b
  var_within :: domain
  var_value :: "real option"
  var_fixed :: bool

definition Var :: "'k list \<Rightarrow> domain \<Rightarrow> ('k \<Rightarrow> error + 'b \<times> 'b) \<Rightarrow> error + ('k \<rightharpoonup> 'b var_data)" where
  "Var idx dmn bounds =
     for_loop idx (\<lambda>k vs. ebind (bounds k) (\<lambda>(l, u). Inr (vs(k \<mapsto>
        \<lparr> var_lb = l, var_ub = u, var_within = dmn, var_value = None, var_fixed = False \<rparr>))))
       Map.empty"

definition no_bounds :: "'k \<Rightarrow> error + real option \<times> real option" where
  "no_bounds k = Inr (None, None)"

definition Constraint :: "'k list \<Rightarrow> ('k \<Rightarrow> error + 'c) \<Rightarrow> error + ('k \<rightharpoonup> 'c)" where
  "Constraint idx rule =
     for_loop idx (\<lambda>k cs. ebind (rule k) (\<lambda>c. Inr (cs(k \<mapsto> c)))) Map.empty"

text \<open>\<^verbatim>\<open>container[k]\<close> on an indexed variable: the variable as an expression.\<close>

definition var_at :: "('k \<rightharpoonup> 'b var_data) \<Rightarrow> 'k \<Rightarrow> var \<Rightarrow> error + expr" where
  "var_at vs k x = (case vs k of None \<Rightarrow> Inl KeyError | Some d \<Rightarrow> Inr (V x))"

section \<open>Topology and the operational model\<close>

record Node =
  label :: node
  inputs :: "node list"
  outputs :: "node list"

record Investment =
  maximum :: real
  ep_costs :: "real option"

record Discrete_opts =
  start_costs :: "real option"

record Flow =
  nominal_value :: "real option"
  flow_min :: "real sequence"
  flow_max :: "real sequence"
  summed_max :: "real option"
  summed_min :: "real option"
  positive_gradient :: "real option sequence"
  negative_gradient :: "real option sequence"
  fixed_costs :: "real option"
  variable_costs :: "real option sequence"
  actual_value :: "real sequence"
  fixed :: bool
  investment :: "Investment option"
  discrete :: "Discrete_opts option"

record Storage = Node +
  nominal_capacity :: "real option"
  capacity_min :: "real sequence"
  capacity_max :: "real sequence"
  capacity_loss :: "real sequence"
  inflow_conversion_factor :: "real sequence"
  outflow_conversion_factor :: "real sequence"
  initial_capacity :: "real option"
  nominal_input_capacity_ratio :: real
  nominal_output_capacity_ratio :: real
  storage_fixed_costs :: "real option"
  storage_investment :: "Investment option"

text \<open>
  Modelled from the spec: the class \<^verbatim>\<open>OperationalModel\<close> (the parent block \<^verbatim>\<open>m\<close>) is not
  among the sources. The record holds the attributes of \<^verbatim>\<open>m\<close> that the blocks read: the
  timesteps, the time increment, the previous-timestep mapping, the edges \<^verbatim>\<open>FLOWS\<close> over
  which the flow variable \<^verbatim>\<open>m.flow\<close> is indexed (together with \<^verbatim>\<open>TIMESTEPS\<close>), the flow
  objects \<^verbatim>\<open>m.flows\<close>, the single input and output of a node (\<^verbatim>\<open>m.INPUTS\<close>,
  \<^verbatim>\<open>m.OUTPUTS\<close>), and the two gradient variables with whatever index set the model gave
  them. A node used as a key of these is given by its label.
\<close>

record model =
  TIMESTEPS :: "nat list"
  timesteps :: "nat list"
  timeincrement :: real
  previous_timesteps :: "nat \<rightharpoonup> nat"
  FLOWS :: "(node \<times> node) list"
  flows :: "node \<times> node \<rightharpoonup> Flow"
  INPUTS :: "node \<rightharpoonup> node"
  OUTPUTS :: "node \<rightharpoonup> node"
  positive_flow_gradient_var :: "node \<times> node \<times> nat \<rightharpoonup> real option var_data"
  negative_flow_gradient_var :: "node \<times> node \<times> nat \<rightharpoonup> real option var_data"

text \<open>
  Modelled from the spec: \<^verbatim>\<open>previous(first) = last\<close> and \<^verbatim>\<open>previous(t)\<close> is the timestep
  before \<^verbatim>\<open>t\<close> otherwise.
\<close>

definition periodic_previous :: "nat list \<Rightarrow> (nat \<rightharpoonup> nat)" where
  "periodic_previous ts = (if ts = [] then Map.empty else map_of (zip ts (last ts # butlast ts)))"

text \<open>\<^verbatim>\<open>m.flow[i, o, t]\<close>: a KeyError outside the index set of the flow variable.\<close>

definition m_flow :: "'a model_scheme \<Rightarrow> node \<Rightarrow> node \<Rightarrow> nat \<Rightarrow> error + expr" where
  "m_flow m i o' t =
     (if (i, o') \<in> set (FLOWS m) \<and> t \<in> set (TIMESTEPS m) then Inr (V (flow i o' t))
      else Inl KeyError)"

section \<open>Bus balance (\<^verbatim>\<open>blocks.Bus\<close>)\<close>





section \<open>Storages with a fixed size (\<^verbatim>\<open>blocks.Storage\<close>)\<close>

record Storage_block =
  STORAGES :: "Storage list"
  Storage_capacity_var :: "Storage \<times> nat \<rightharpoonup> real var_data"
  Storage_balance :: "Storage \<times> nat \<rightharpoonup> constr"

definition storage_capacity_bound_rule :: "Storage \<times> nat \<Rightarrow> error + real \<times> real" where
  "storage_capacity_bound_rule = (\<lambda>(n, t).
     ebind (seq_at (capacity_min n) t) (\<lambda>cmin.
     ebind (number (nominal_capacity n)) (\<lambda>nc.
     ebind (seq_at (capacity_max n) t) (\<lambda>cmax.
     Inr (nc * cmin, nc * cmax)))))"

text \<open>Assigning a value to the variable at an index, then \<^verbatim>\<open>.fix()\<close>.\<close>

definition set_and_fix :: "('k \<rightharpoonup> 'b var_data) \<Rightarrow> 'k \<Rightarrow> real \<Rightarrow> error + ('k \<rightharpoonup> 'b var_data)" where
  "set_and_fix vs k x =
     (case vs k of None \<Rightarrow> Inl KeyError
      | Some d \<Rightarrow> Inr (vs(k \<mapsto> d\<lparr>var_value := Some x, var_fixed := True\<rparr>)))"

definition set_initial_capacity ::
  "model \<Rightarrow> Storage \<Rightarrow> (Storage \<times> nat \<rightharpoonup> real var_data) \<Rightarrow> error + (Storage \<times> nat \<rightharpoonup> real var_data)" where
  "set_initial_capacity m n cap =
     (case initial_capacity n of None \<Rightarrow> Inr cap
      | Some ic \<Rightarrow>
          ebind (number (nominal_capacity n)) (\<lambda>nc.
          ebind (py_last (timesteps m)) (\<lambda>tl.
          set_and_fix cap (n, tl) (ic * nc))))"

text \<open>The balance of storage \<open>n\<close> at timestep \<open>t\<close>; \<open>cap\<close> gives the capacity variable of
  the block and \<open>x\<close> its name (the rule is shared by both storage blocks).\<close>

definition storage_balance_rule ::
  "model \<Rightarrow> ('a Storage_scheme \<times> nat \<Rightarrow> error + expr) \<Rightarrow> 'a Storage_scheme \<times> nat \<Rightarrow> error + constr" where
  "storage_balance_rule m cap = (\<lambda>(n, t).
     ebind (cap (n, t)) (\<lambda>c_t.
     ebind (getitem (previous_timesteps m) t) (\<lambda>p.
     ebind (cap (n, p)) (\<lambda>c_p.
     ebind (seq_at (capacity_loss n) t) (\<lambda>loss.
     ebind (getitem (INPUTS m) (label n)) (\<lambda>i.
     ebind (m_flow m i (label n) t) (\<lambda>f_in.
     ebind (seq_at (inflow_conversion_factor n) t) (\<lambda>eta_in.
     ebind (getitem (OUTPUTS m) (label n)) (\<lambda>o'.
     ebind (m_flow m (label n) o' t) (\<lambda>f_out.
     ebind (seq_at (outflow_conversion_factor n) t) (\<lambda>eta_out.
     ebind (py_div f_out eta_out) (\<lambda>q.
     Inr (Rel_eq
       (Add (Add (Add (Add (Num 0) c_t)
                      (Mul (Neg c_p) (Num (1 - loss))))
                 (Mul (Mul (Neg f_in) (Num eta_in)) (Num (timeincrement m))))
            (Mul q (Num (timeincrement m))))
       (Num 0))))))))))))))"

definition Storage_create :: "model \<Rightarrow> Storage list option \<Rightarrow> error + Storage_block option" where
  "Storage_create m grp =
     (case grp of None \<Rightarrow> Inr None
      | Some g \<Rightarrow>
          ebind (Var (List.product g (TIMESTEPS m)) Reals storage_capacity_bound_rule) (\<lambda>cap0.
          ebind (for_loop g (set_initial_capacity m) cap0) (\<lambda>cap.
          ebind (Constraint (List.product g (TIMESTEPS m))
                   (storage_balance_rule m
                      (\<lambda>(n, t). var_at cap (n, t) (Storage_capacity (label n) t)))) (\<lambda>bal.
          Inr (Some \<lparr> STORAGES = g, Storage_capacity_var = cap, Storage_balance = bal \<rparr>)))))"

section \<open>Electrical buses (\<^verbatim>\<open>custom.py\<close>)\<close>

text \<open>
  \<^verbatim>\<open>class ElectricalBus(Bus)\<close>: the constructor reads three keyword arguments with
  \<^verbatim>\<open>kwargs.get(name, default)\<close>. The label stands for what \<^verbatim>\<open>super().__init__\<close> sets up.
\<close>

record ElectricalBus = Node +
  slack :: pyval
  v_max :: pyval
  v_min :: pyval

definition kwargs_get :: "(string \<rightharpoonup> pyval) \<Rightarrow> string \<Rightarrow> pyval \<Rightarrow> pyval" where
  "kwargs_get kwargs k d = (case kwargs k of None \<Rightarrow> d | Some v \<Rightarrow> v)"

definition ElectricalBus_init :: "node \<Rightarrow> (string \<rightharpoonup> pyval) \<Rightarrow> ElectricalBus" where
  "ElectricalBus_init lbl kwargs =
     \<lparr> label = lbl, inputs = [], outputs = [],
       slack = kwargs_get kwargs ''slack'' (PBool True),
       v_max = kwargs_get kwargs ''v_max'' (PNum 1000),
       v_min = kwargs_get kwargs ''v_min'' (PNum (- 1000)) \<rparr>"

section \<open>Flows with an investment (\<^verbatim>\<open>blocks.InvestmentFlow\<close>)\<close>


text \<open>A list comprehension with a condition that may raise.\<close>

fun efilter :: "('a \<Rightarrow> error + bool) \<Rightarrow> 'a list \<Rightarrow> error + 'a list" where
  "efilter p [] = Inr []"
| "efilter p (x # xs) =
     (case p x of Inl e \<Rightarrow> Inl e
      | Inr b \<Rightarrow> (case efilter p xs of Inl e \<Rightarrow> Inl e
                  | Inr ys \<Rightarrow> Inr (if b then x # ys else ys)))"

text \<open>\<^verbatim>\<open>x.investment\<close> followed by an attribute access: AttributeError on \<^verbatim>\<open>None\<close>.\<close>

definition attr_of :: "'a option \<Rightarrow> error + 'a" where
  "attr_of x = (case x of None \<Rightarrow> Inl AttributeError | Some a \<Rightarrow> Inr a)"

record InvestmentFlow_block =
  InvestmentFlow_FLOWS :: "(node \<times> node) list"
  InvestmentFlow_FIXEDFLOWS :: "(node \<times> node) list"
  InvestmentFlow_SUMMED_MAX_FLOWS :: "(node \<times> node) list"
  InvestmentFlow_SUMMED_MIN_FLOWS :: "(node \<times> node) list"
  InvestmentFlow_MAX_FLOWS :: "(node \<times> node) list"
  InvestmentFlow_MIN_FLOWS :: "(node \<times> node) list"
  InvestmentFlow_invest_var :: "node \<times> node \<rightharpoonup> real var_data"
  InvestmentFlow_bounds :: "(node \<times> node) \<times> nat \<rightharpoonup> constr"
  InvestmentFlow_max :: "(node \<times> node) \<times> nat \<rightharpoonup> constr"
  InvestmentFlow_min :: "(node \<times> node) \<times> nat \<rightharpoonup> constr"
  InvestmentFlow_summed_max :: "node \<times> node \<rightharpoonup> constr"
  InvestmentFlow_summed_min :: "node \<times> node \<rightharpoonup> constr"

definition investvar_bound_rule :: "model \<Rightarrow> node \<times> node \<Rightarrow> error + real \<times> real" where
  "investvar_bound_rule m io =
     ebind (getitem (flows m) io) (\<lambda>f.
     ebind (attr_of (investment f)) (\<lambda>inv.
     Inr (0, maximum inv)))"

definition investflow_bound_rule ::
  "model \<Rightarrow> (node \<times> node \<rightharpoonup> real var_data) \<Rightarrow> (node \<times> node) \<times> nat \<Rightarrow> error + constr" where
  "investflow_bound_rule m invest = (\<lambda>((i, o'), t).
     ebind (m_flow m i o' t) (\<lambda>fl.
     ebind (var_at invest (i, o') (InvestmentFlow_invest i o')) (\<lambda>iv.
     ebind (getitem (flows m) (i, o')) (\<lambda>f.
     ebind (seq_at (actual_value f) t) (\<lambda>a.
     Inr (Rel_eq fl (Mul iv (Num a))))))))"

definition max_investflow_rule ::
  "model \<Rightarrow> (node \<times> node \<rightharpoonup> real var_data) \<Rightarrow> (node \<times> node) \<times> nat \<Rightarrow> error + constr" where
  "max_investflow_rule m invest = (\<lambda>((i, o'), t).
     ebind (m_flow m i o' t) (\<lambda>fl.
     ebind (getitem (flows m) (i, o')) (\<lambda>f.
     ebind (seq_at (flow_max f) t) (\<lambda>a.
     ebind (var_at invest (i, o') (InvestmentFlow_invest i o')) (\<lambda>iv.
     Inr (Rel_le fl (Mul (Num a) iv)))))))"

definition min_investflow_rule ::
  "model \<Rightarrow> (node \<times> node \<rightharpoonup> real var_data) \<Rightarrow> (node \<times> node) \<times> nat \<Rightarrow> error + constr" where
  "min_investflow_rule m invest = (\<lambda>((i, o'), t).
     ebind (m_flow m i o' t) (\<lambda>fl.
     ebind (getitem (flows m) (i, o')) (\<lambda>f.
     ebind (seq_at (flow_min f) t) (\<lambda>a.
     ebind (var_at invest (i, o') (InvestmentFlow_invest i o')) (\<lambda>iv.
     Inr (Rel_ge fl (Mul (Num a) iv)))))))"

definition summed_flow :: "model \<Rightarrow> node \<Rightarrow> node \<Rightarrow> error + expr" where
  "summed_flow m i o' =
     ebind (emap (\<lambda>t. ebind (m_flow m i o' t) (\<lambda>fl. Inr (Mul fl (Num (timeincrement m)))))
              (TIMESTEPS m)) (\<lambda>xs. Inr (py_sum xs))"

definition summed_max_investflow_rule ::
  "model \<Rightarrow> (node \<times> node \<rightharpoonup> real var_data) \<Rightarrow> node \<times> node \<Rightarrow> error + constr" where
  "summed_max_investflow_rule m invest = (\<lambda>(i, o').
     ebind (summed_flow m i o') (\<lambda>lhs.
     ebind (getitem (flows m) (i, o')) (\<lambda>f.
     ebind (var_at invest (i, o') (InvestmentFlow_invest i o')) (\<lambda>iv.
     ebind (number (summed_max f)) (\<lambda>s.
     Inr (Rel_le lhs (Mul (Num s) iv)))))))"

definition summed_min_investflow_rule ::
  "model \<Rightarrow> (node \<times> node \<rightharpoonup> real var_data) \<Rightarrow> node \<times> node \<Rightarrow> error + constr" where
  "summed_min_investflow_rule m invest = (\<lambda>(i, o').
     ebind (summed_flow m i o') (\<lambda>lhs.
     ebind (getitem (flows m) (i, o')) (\<lambda>f.
     ebind (var_at invest (i, o') (InvestmentFlow_invest i o')) (\<lambda>iv.
     ebind (number (summed_min f)) (\<lambda>s.
     Inr (Rel_ge lhs (Mul (Num s) iv)))))))"

definition InvestmentFlow_create ::
  "model \<Rightarrow> (node \<times> node \<times> Flow) list option \<Rightarrow> error + InvestmentFlow_block option" where
  "InvestmentFlow_create m grp =
     (case grp of None \<Rightarrow> Inr None
      | Some g \<Rightarrow>
          (let FLOWS' = [(i, o'). (i, o', f) \<leftarrow> g];
               FIXEDFLOWS = [(i, o'). (i, o', f) \<leftarrow> g, fixed f];
               SUMMED_MAX_FLOWS = [(i, o'). (i, o', f) \<leftarrow> g, summed_max f \<noteq> None];
               SUMMED_MIN_FLOWS = [(i, o'). (i, o', f) \<leftarrow> g, summed_min f \<noteq> None];
               MAX_FLOWS = [(i, o'). (i, o', f) \<leftarrow> g, seq_len (flow_max f) \<noteq> 0];
               MIN_FLOWS = [(i, o'). (i, o', f) \<leftarrow> g, seq_len (flow_min f) \<noteq> 0]
           in
          ebind (Var FLOWS' NonNegativeReals (investvar_bound_rule m)) (\<lambda>invest.
          ebind (Constraint (List.product FIXEDFLOWS (TIMESTEPS m))
                   (investflow_bound_rule m invest)) (\<lambda>bounds.
          ebind (Constraint (List.product MAX_FLOWS (TIMESTEPS m))
                   (max_investflow_rule m invest)) (\<lambda>maxc.
          ebind (Constraint (List.product MIN_FLOWS (TIMESTEPS m))
                   (min_investflow_rule m invest)) (\<lambda>minc.
          ebind (Constraint SUMMED_MAX_FLOWS (summed_max_investflow_rule m invest)) (\<lambda>smax.
          ebind (Constraint SUMMED_MIN_FLOWS (summed_min_investflow_rule m invest)) (\<lambda>smin.
          Inr (Some \<lparr> InvestmentFlow_FLOWS = FLOWS',
                      InvestmentFlow_FIXEDFLOWS = FIXEDFLOWS,
                      InvestmentFlow_SUMMED_MAX_FLOWS = SUMMED_MAX_FLOWS,
                      InvestmentFlow_SUMMED_MIN_FLOWS = SUMMED_MIN_FLOWS,
                      InvestmentFlow_MAX_FLOWS = MAX_FLOWS,
                      InvestmentFlow_MIN_FLOWS = MIN_FLOWS,
                      InvestmentFlow_invest_var = invest,
                      InvestmentFlow_bounds = bounds,
                      InvestmentFlow_max = maxc,
                      InvestmentFlow_min = minc,
                      InvestmentFlow_summed_max = smax,
                      InvestmentFlow_summed_min = smin \<rparr>)))))))))"



section \<open>Storages with an investment (\<^verbatim>\<open>blocks.InvestmentStorage\<close>)\<close>

record InvestmentStorage_block =
  INVESTSTORAGES :: "Storage list"
  INITIAL_CAPACITY :: "Storage list"
  MIN_INVESTSTORAGES :: "Storage list"
  InvestmentStorage_capacity_var :: "Storage \<times> nat \<rightharpoonup> real option var_data"
  InvestmentStorage_invest_var :: "Storage \<rightharpoonup> real var_data"
  InvestmentStorage_balance :: "Storage \<times> nat \<rightharpoonup> constr"
  initial_capacity_invest :: "Storage \<rightharpoonup> constr"
  storage_capacity_input_invest :: "Storage \<rightharpoonup> constr"
  storage_capacity_output_invest :: "Storage \<rightharpoonup> constr"
  max_capacity_invest :: "Storage \<times> nat \<rightharpoonup> constr"
  min_investstorage :: "Storage \<times> nat \<rightharpoonup> constr"

text \<open>The condition of \<^verbatim>\<open>MIN_INVESTSTORAGES\<close>:
  \<^verbatim>\<open>sum([n.capacity_min[t] for t in m.TIMESTEPS]) > 0\<close>.\<close>

definition capacity_min_sum_positive :: "model \<Rightarrow> Storage \<Rightarrow> error + bool" where
  "capacity_min_sum_positive m n =
     ebind (emap (seq_at (capacity_min n)) (TIMESTEPS m)) (\<lambda>xs. Inr (foldl (+) 0 xs > 0))"

definition storage_investvar_bound_rule :: "Storage \<Rightarrow> error + real \<times> real" where
  "storage_investvar_bound_rule n =
     ebind (attr_of (storage_investment n)) (\<lambda>inv. Inr (0, maximum inv))"

definition invest_capacity_at ::
  "(Storage \<times> nat \<rightharpoonup> real option var_data) \<Rightarrow> Storage \<times> nat \<Rightarrow> error + expr" where
  "invest_capacity_at cap = (\<lambda>(n, t). var_at cap (n, t) (InvestmentStorage_capacity (label n) t))"

definition initial_capacity_invest_rule ::
  "model \<Rightarrow> (Storage \<times> nat \<rightharpoonup> real option var_data) \<Rightarrow> (Storage \<rightharpoonup> real var_data)
     \<Rightarrow> Storage \<Rightarrow> error + constr" where
  "initial_capacity_invest_rule m cap invest n =
     ebind (py_last (TIMESTEPS m)) (\<lambda>tl.
     ebind (invest_capacity_at cap (n, tl)) (\<lambda>c.
     ebind (number (initial_capacity n)) (\<lambda>ic.
     ebind (var_at invest n (InvestmentStorage_invest (label n))) (\<lambda>iv.
     Inr (Rel_eq c (Mul (Num ic) iv))))))"

text \<open>\<^verbatim>\<open>m.InvestmentFlow.invest[i, o]\<close>: the sizing variable of the InvestmentFlow block of
  the model; the block that has built nothing has no attribute \<^verbatim>\<open>invest\<close>.\<close>

definition investflow_invest_at :: "InvestmentFlow_block option \<Rightarrow> node \<Rightarrow> node \<Rightarrow> error + expr" where
  "investflow_invest_at b i o' =
     ebind (attr_of b) (\<lambda>block.
       var_at (InvestmentFlow_invest_var block) (i, o') (InvestmentFlow_invest i o'))"

definition storage_capacity_input_invest_rule ::
  "model \<Rightarrow> InvestmentFlow_block option \<Rightarrow> (Storage \<rightharpoonup> real var_data) \<Rightarrow> Storage \<Rightarrow> error + constr" where
  "storage_capacity_input_invest_rule m ifb invest n =
     ebind (attr_of ifb) (\<lambda>_.
     ebind (getitem (INPUTS m) (label n)) (\<lambda>i.
     ebind (investflow_invest_at ifb i (label n)) (\<lambda>fi.
     ebind (var_at invest n (InvestmentStorage_invest (label n))) (\<lambda>iv.
     Inr (Rel_eq fi (Mul iv (Num (nominal_input_capacity_ratio n))))))))"

definition storage_capacity_output_invest_rule ::
  "model \<Rightarrow> InvestmentFlow_block option \<Rightarrow> (Storage \<rightharpoonup> real var_data) \<Rightarrow> Storage \<Rightarrow> error + constr" where
  "storage_capacity_output_invest_rule m ifb invest n =
     ebind (attr_of ifb) (\<lambda>_.
     ebind (getitem (OUTPUTS m) (label n)) (\<lambda>o'.
     ebind (investflow_invest_at ifb (label n) o') (\<lambda>fo.
     ebind (var_at invest n (InvestmentStorage_invest (label n))) (\<lambda>iv.
     Inr (Rel_eq fo (Mul iv (Num (nominal_output_capacity_ratio n))))))))"

definition max_capacity_invest_rule ::
  "(Storage \<times> nat \<rightharpoonup> real option var_data) \<Rightarrow> (Storage \<rightharpoonup> real var_data)
     \<Rightarrow> Storage \<times> nat \<Rightarrow> error + constr" where
  "max_capacity_invest_rule cap invest = (\<lambda>(n, t).
     ebind (invest_capacity_at cap (n, t)) (\<lambda>c.
     ebind (seq_at (capacity_max n) t) (\<lambda>cmax.
     ebind (var_at invest n (InvestmentStorage_invest (label n))) (\<lambda>iv.
     Inr (Rel_le c (Mul (Num cmax) iv))))))"

definition min_investstorage_rule ::
  "(Storage \<times> nat \<rightharpoonup> real option var_data) \<Rightarrow> (Storage \<rightharpoonup> real var_data)
     \<Rightarrow> Storage \<times> nat \<Rightarrow> error + constr" where
  "min_investstorage_rule cap invest = (\<lambda>(n, t).
     ebind (invest_capacity_at cap (n, t)) (\<lambda>c.
     ebind (seq_at (capacity_min n) t) (\<lambda>cmin.
     ebind (var_at invest n (InvestmentStorage_invest (label n))) (\<lambda>iv.
     Inr (Rel_le c (Mul (Num cmin) iv))))))"

definition InvestmentStorage_create ::
  "model \<Rightarrow> InvestmentFlow_block option \<Rightarrow> Storage list option
     \<Rightarrow> error + InvestmentStorage_block option" where
  "InvestmentStorage_create m ifb grp =
     (case grp of None \<Rightarrow> Inr None
      | Some g \<Rightarrow>
          ebind (efilter (capacity_min_sum_positive m) g) (\<lambda>MIN_STORAGES.
          ebind (Var (List.product g (TIMESTEPS m)) NonNegativeReals no_bounds) (\<lambda>cap.
          ebind (Var g NonNegativeReals storage_investvar_bound_rule) (\<lambda>invest.
          ebind (Constraint (List.product g (TIMESTEPS m))
                   (storage_balance_rule m (invest_capacity_at cap))) (\<lambda>bal.
          ebind (Constraint [n \<leftarrow> g. initial_capacity n \<noteq> None]
                   (initial_capacity_invest_rule m cap invest)) (\<lambda>ini.
          ebind (Constraint g (storage_capacity_input_invest_rule m ifb invest)) (\<lambda>inp.
          ebind (Constraint g (storage_capacity_output_invest_rule m ifb invest)) (\<lambda>outp.
          ebind (Constraint (List.product g (TIMESTEPS m))
                   (max_capacity_invest_rule cap invest)) (\<lambda>maxc.
          ebind (Constraint (List.product MIN_STORAGES (TIMESTEPS m))
                   (min_investstorage_rule cap invest)) (\<lambda>minc.
          Inr (Some \<lparr> INVESTSTORAGES = g,
                      INITIAL_CAPACITY = [n \<leftarrow> g. initial_capacity n \<noteq> None],
                      MIN_INVESTSTORAGES = MIN_STORAGES,
                      InvestmentStorage_capacity_var = cap,
                      InvestmentStorage_invest_var = invest,
                      InvestmentStorage_balance = bal,
                      initial_capacity_invest = ini,
                      storage_capacity_input_invest = inp,
                      storage_capacity_output_invest = outp,
                      max_capacity_invest = maxc,
                      min_investstorage = minc \<rparr>)))))))))))"



section \<open>Discrete flows (\<^verbatim>\<open>blocks.Discrete\<close>)\<close>

record Discrete_block =
  Discrete_FLOWS :: "(node \<times> node) list"
  Discrete_MIN_FLOWS :: "(node \<times> node) list"
  STARTCOSTFLOWS :: "(node \<times> node) list"
  Discrete_status_var :: "(node \<times> node) \<times> nat \<rightharpoonup> real option var_data"
  minimum_flow :: "(node \<times> node) \<times> nat \<rightharpoonup> constr"
  maximum_flow :: "(node \<times> node) \<times> nat \<rightharpoonup> constr"

text \<open>The conditions of the two set comprehensions: \<^verbatim>\<open>g[2].min[0] != 0\<close> and
  \<^verbatim>\<open>g[2].discrete.start_costs is not None\<close>.\<close>

definition min_nonzero :: "node \<times> node \<times> Flow \<Rightarrow> error + bool" where
  "min_nonzero = (\<lambda>(i, o', f). ebind (seq_at (flow_min f) 0) (\<lambda>x. Inr (x \<noteq> 0)))"

definition has_start_costs :: "node \<times> node \<times> Flow \<Rightarrow> error + bool" where
  "has_start_costs = (\<lambda>(i, o', f). ebind (attr_of (discrete f)) (\<lambda>d. Inr (start_costs d \<noteq> None)))"

definition minimum_flow_rule ::
  "model \<Rightarrow> ((node \<times> node) \<times> nat \<rightharpoonup> real option var_data) \<Rightarrow> (node \<times> node) \<times> nat
     \<Rightarrow> error + constr" where
  "minimum_flow_rule m status = (\<lambda>((i, o'), t).
     ebind (var_at status ((i, o'), t) (Discrete_status i o' t)) (\<lambda>st.
     ebind (getitem (flows m) (i, o')) (\<lambda>f.
     ebind (seq_at (flow_min f) t) (\<lambda>mn.
     ebind (number (nominal_value f)) (\<lambda>nv.
     ebind (m_flow m i o' t) (\<lambda>fl.
     Inr (Rel_ge (Mul (Mul st (Num mn)) (Num nv)) fl)))))))"

definition maximum_flow_rule ::
  "model \<Rightarrow> ((node \<times> node) \<times> nat \<rightharpoonup> real option var_data) \<Rightarrow> (node \<times> node) \<times> nat
     \<Rightarrow> error + constr" where
  "maximum_flow_rule m status = (\<lambda>((i, o'), t).
     ebind (var_at status ((i, o'), t) (Discrete_status i o' t)) (\<lambda>st.
     ebind (getitem (flows m) (i, o')) (\<lambda>f.
     ebind (seq_at (flow_max f) t) (\<lambda>mx.
     ebind (number (nominal_value f)) (\<lambda>nv.
     ebind (m_flow m i o' t) (\<lambda>fl.
     Inr (Rel_le (Mul (Mul st (Num mx)) (Num nv)) fl)))))))"

definition Discrete_create ::
  "model \<Rightarrow> (node \<times> node \<times> Flow) list option \<Rightarrow> error + Discrete_block option" where
  "Discrete_create m grp =
     (case grp of None \<Rightarrow> Inr None
      | Some g \<Rightarrow>
          ebind (efilter min_nonzero g) (\<lambda>gmin.
          ebind (efilter has_start_costs g) (\<lambda>gstart.
          ebind (Var (List.product (map (\<lambda>(i, o', f). (i, o')) g) (TIMESTEPS m)) Binary no_bounds)
            (\<lambda>status.
          ebind (Constraint (List.product (map (\<lambda>(i, o', f). (i, o')) gmin) (TIMESTEPS m))
                   (minimum_flow_rule m status)) (\<lambda>minc.
          ebind (Constraint (List.product (map (\<lambda>(i, o', f). (i, o')) gmin) (TIMESTEPS m))
                   (maximum_flow_rule m status)) (\<lambda>maxc.
          Inr (Some \<lparr> Discrete_FLOWS = map (\<lambda>(i, o', f). (i, o')) g,
                      Discrete_MIN_FLOWS = map (\<lambda>(i, o', f). (i, o')) gmin,
                      STARTCOSTFLOWS = map (\<lambda>(i, o', f). (i, o')) gstart,
                      Discrete_status_var = status,
                      minimum_flow = minc,
                      maximum_flow = maxc \<rparr>)))))))"

text \<open>A flow without start costs and without gradients, everything else unchanged.\<close>

definition without_start_costs_and_gradients :: "Flow \<Rightarrow> Flow" where
  "without_start_costs_and_gradients f =
     f\<lparr> positive_gradient := Repeated None, negative_gradient := Repeated None,
        discrete := map_option (\<lambda>d. d\<lparr>start_costs := None\<rparr>) (discrete f) \<rparr>"

section \<open>Flows with a fixed size (\<^verbatim>\<open>blocks.Flow\<close>)\<close>

record Flow_block =
  Flow_SUMMED_MAX_FLOWS :: "(node \<times> node) list"
  Flow_SUMMED_MIN_FLOWS :: "(node \<times> node) list"
  NEGATIVE_GRADIENT_FLOWS :: "(node \<times> node) list"
  POSITIVE_GRADIENT_FLOWS :: "(node \<times> node) list"
  Flow_summed_max :: "node \<times> node \<rightharpoonup> constr"
  Flow_summed_min :: "node \<times> node \<rightharpoonup> constr"
  positive_gradient_constr :: "node \<times> node \<times> nat \<rightharpoonup> constr"
  negative_gradient_constr :: "node \<times> node \<times> nat \<rightharpoonup> constr"

text \<open>
  The local variables \<^verbatim>\<open>i\<close>, \<^verbatim>\<open>o\<close> and \<^verbatim>\<open>t\<close> of \<^verbatim>\<open>Flow._create\<close>: the loop that sets the bounds
  of the gradient variables assigns them, and the rule of the negative gradient reads them
  as free variables. A variable that was never assigned is \<open>None\<close>; reading it raises
  NameError.
\<close>

record create_locals =
  local_i :: "node option"
  local_o :: "node option"
  local_t :: "nat option"

definition read_local :: "'a option \<Rightarrow> error + 'a" where
  "read_local x = (case x of None \<Rightarrow> Inl NameError | Some a \<Rightarrow> Inr a)"

text \<open>\<^verbatim>\<open>container[k].setub(x)\<close>; the index is looked up before \<open>x\<close> is computed.\<close>

definition setub ::
  "('k \<rightharpoonup> real option var_data) \<Rightarrow> 'k \<Rightarrow> error + real \<Rightarrow> error + ('k \<rightharpoonup> real option var_data)" where
  "setub vs k x =
     (case vs k of None \<Rightarrow> Inl KeyError
      | Some d \<Rightarrow> ebind x (\<lambda>u. Inr (vs(k \<mapsto> d\<lparr>var_ub := Some u\<rparr>))))"

definition gradient_times_nominal :: "real option sequence \<Rightarrow> Flow \<Rightarrow> nat \<Rightarrow> error + real" where
  "gradient_times_nominal gradient f t =
     ebind (seq_at gradient t) (\<lambda>g.
     ebind (number g) (\<lambda>gv.
     ebind (number (nominal_value f)) (\<lambda>nv. Inr (gv * nv))))"

definition set_gradient_bounds ::
  "node \<times> node \<times> Flow \<Rightarrow> model \<times> create_locals \<Rightarrow> error + model \<times> create_locals" where
  "set_gradient_bounds = (\<lambda>(i, o', f) (m, locals).
     (let locals1 = locals\<lparr>local_i := Some i, local_o := Some o'\<rparr> in
     ebind (getitem (flows m) (i, o')) (\<lambda>mf.
     ebind (seq_at (positive_gradient mf) 0) (\<lambda>pg0.
     ebind (if pg0 \<noteq> None
            then for_loop (TIMESTEPS m) (\<lambda>t (m', l).
                   ebind (setub (positive_flow_gradient_var m') (i, o', t)
                            (gradient_times_nominal (positive_gradient f) f t)) (\<lambda>vs.
                   Inr (m'\<lparr>positive_flow_gradient_var := vs\<rparr>, l\<lparr>local_t := Some t\<rparr>)))
                 (m, locals1)
            else Inr (m, locals1)) (\<lambda>(m2, locals2).
     ebind (seq_at (negative_gradient mf) 0) (\<lambda>ng0.
     (if ng0 \<noteq> None
      then for_loop (TIMESTEPS m2) (\<lambda>t (m', l).
             ebind (setub (negative_flow_gradient_var m') (i, o', t)
                      (gradient_times_nominal (negative_gradient f) f t)) (\<lambda>vs.
             Inr (m'\<lparr>negative_flow_gradient_var := vs\<rparr>, l\<lparr>local_t := Some t\<rparr>)))
           (m2, locals2)
      else Inr (m2, locals2))))))))"

text \<open>Adding a relation to an indexed constraint; the library refuses a Python bool
  (a relation between two numbers) with a ValueError.\<close>

definition constraint_add :: "('k \<rightharpoonup> constr) \<Rightarrow> 'k \<Rightarrow> pyrel \<Rightarrow> error + ('k \<rightharpoonup> constr)" where
  "constraint_add cs k r = (case r of PyBool b \<Rightarrow> Inl ValueError | Rel c \<Rightarrow> Inr (cs(k \<mapsto> c)))"

fun py_le :: "expr \<Rightarrow> expr \<Rightarrow> pyrel" where
  "py_le (Num x) (Num y) = PyBool (x \<le> y)"
| "py_le a b = Rel (Rel_le a b)"

fun py_ge :: "expr \<Rightarrow> expr \<Rightarrow> pyrel" where
  "py_ge (Num x) (Num y) = PyBool (x \<ge> y)"
| "py_ge a b = Rel (Rel_ge a b)"

definition summed_times_nominal :: "model \<Rightarrow> (Flow \<Rightarrow> real option) \<Rightarrow> node \<times> node \<Rightarrow> error + real" where
  "summed_times_nominal m summed io =
     ebind (getitem (flows m) io) (\<lambda>mf.
     ebind (number (summed mf)) (\<lambda>s.
     ebind (number (nominal_value mf)) (\<lambda>nv. Inr (s * nv))))"

definition flow_summed_max_rule ::
  "model \<Rightarrow> (node \<times> node) list \<Rightarrow> (node \<times> node \<rightharpoonup> constr) \<Rightarrow> error + (node \<times> node \<rightharpoonup> constr)" where
  "flow_summed_max_rule m SUMMED_MAX =
     for_loop SUMMED_MAX (\<lambda>(inp, out) cs.
       ebind (summed_flow m inp out) (\<lambda>lhs.
       ebind (summed_times_nominal m summed_max (inp, out)) (\<lambda>rhs.
       constraint_add cs (inp, out) (py_le lhs (Num rhs)))))"

definition flow_summed_min_rule ::
  "model \<Rightarrow> (node \<times> node) list \<Rightarrow> (node \<times> node \<rightharpoonup> constr) \<Rightarrow> error + (node \<times> node \<rightharpoonup> constr)" where
  "flow_summed_min_rule m SUMMED_MIN =
     for_loop SUMMED_MIN (\<lambda>(inp, out) cs.
       ebind (summed_flow m inp out) (\<lambda>lhs.
       ebind (summed_times_nominal m summed_min (inp, out)) (\<lambda>rhs.
       constraint_add cs (inp, out) (py_ge lhs (Num rhs)))))"

definition positive_gradient_flow_rule ::
  "model \<Rightarrow> (node \<times> node) list \<Rightarrow> (node \<times> node \<times> nat \<rightharpoonup> constr)
     \<Rightarrow> error + (node \<times> node \<times> nat \<rightharpoonup> constr)" where
  "positive_gradient_flow_rule m POSITIVE =
     for_loop POSITIVE (\<lambda>(inp, out).
       for_loop (TIMESTEPS m) (\<lambda>ts cs.
         if ts > 0
         then ebind (m_flow m inp out ts) (\<lambda>f1.
              ebind (m_flow m inp out (ts - 1)) (\<lambda>f0.
              ebind (var_at (positive_flow_gradient_var m) (inp, out, ts)
                       (positive_flow_gradient inp out ts)) (\<lambda>rhs.
              constraint_add cs (inp, out, ts) (py_le (Sub f1 f0) rhs))))
         else Inr cs))"

text \<open>The rule of the negative gradient, as written: its left-hand side reads the locals
  \<^verbatim>\<open>i\<close>, \<^verbatim>\<open>o\<close>, \<^verbatim>\<open>t\<close> of \<^verbatim>\<open>_create\<close>, and its right-hand side is the variable of the
  positive gradient.\<close>

definition negative_gradient_flow_rule ::
  "model \<Rightarrow> create_locals \<Rightarrow> (node \<times> node) list \<Rightarrow> (node \<times> node \<times> nat \<rightharpoonup> constr)
     \<Rightarrow> error + (node \<times> node \<times> nat \<rightharpoonup> constr)" where
  "negative_gradient_flow_rule m locals NEGATIVE =
     for_loop NEGATIVE (\<lambda>(inp, out).
       for_loop (TIMESTEPS m) (\<lambda>ts cs.
         if ts > 0
         then ebind (read_local (local_i locals)) (\<lambda>i.
              ebind (read_local (local_o locals)) (\<lambda>o'.
              ebind (read_local (local_t locals)) (\<lambda>t.
              ebind (m_flow m i o' t) (\<lambda>f1.
              ebind (m_flow m inp out (ts - 1)) (\<lambda>f0.
              ebind (var_at (positive_flow_gradient_var m) (inp, out, ts)
                       (positive_flow_gradient inp out ts)) (\<lambda>rhs.
              constraint_add cs (inp, out, ts) (py_le (Sub f1 f0) rhs)))))))
         else Inr cs))"

definition gradient_set :: "(Flow \<Rightarrow> real option sequence) \<Rightarrow> node \<times> node \<times> Flow \<Rightarrow> error + bool" where
  "gradient_set gradient = (\<lambda>(i, o', f). ebind (seq_at (gradient f) 0) (\<lambda>x. Inr (x \<noteq> None)))"

definition Flow_create ::
  "model \<Rightarrow> (node \<times> node \<times> Flow) list option \<Rightarrow> error + model \<times> Flow_block option" where
  "Flow_create m grp =
     (case grp of None \<Rightarrow> Inr (m, None)
      | Some g \<Rightarrow>
          (let SUMMED_MAX = [(i, o'). (i, o', f) \<leftarrow> g, summed_max f \<noteq> None];
               SUMMED_MIN = [(i, o'). (i, o', f) \<leftarrow> g, summed_min f \<noteq> None]
           in
          ebind (efilter (gradient_set negative_gradient) g) (\<lambda>gneg.
          ebind (efilter (gradient_set positive_gradient) g) (\<lambda>gpos.
          ebind (for_loop g set_gradient_bounds
                   (m, \<lparr> local_i = None, local_o = None, local_t = None \<rparr>)) (\<lambda>(m', locals).
          ebind (flow_summed_max_rule m' SUMMED_MAX Map.empty) (\<lambda>smax.
          ebind (flow_summed_min_rule m' SUMMED_MIN Map.empty) (\<lambda>smin.
          ebind (positive_gradient_flow_rule m' (map (\<lambda>(i, o', f). (i, o')) gpos) Map.empty) (\<lambda>pgc.
          ebind (negative_gradient_flow_rule m' locals (map (\<lambda>(i, o', f). (i, o')) gneg) Map.empty)
            (\<lambda>ngc.
          Inr (m', Some \<lparr> Flow_SUMMED_MAX_FLOWS = SUMMED_MAX,
                          Flow_SUMMED_MIN_FLOWS = SUMMED_MIN,
                          NEGATIVE_GRADIENT_FLOWS = map (\<lambda>(i, o', f). (i, o')) gneg,
                          POSITIVE_GRADIENT_FLOWS = map (\<lambda>(i, o', f). (i, o')) gpos,
                          Flow_summed_max = smax,
                          Flow_summed_min = smin,
                          positive_gradient_constr = pgc,
                          negative_gradient_constr = ngc \<rparr>))))))))))"

section \<open>Electrical lines (\<^verbatim>\<open>custom.ElectricalLineBlock\<close>)\<close>

record ElectricalLine = Node +
  reactance :: "real sequence"

text \<open>
  The nodes of the energy system, \<^verbatim>\<open>m.es.nodes\<close>: electrical buses and nodes of any other
  class. The buses are objects that \<^verbatim>\<open>_create\<close> may modify (\<^verbatim>\<open>bus.slack = True\<close>), so the
  model carries them and a line refers to its buses by label.
\<close>

datatype es_node = ElectricalBus_node ElectricalBus | Other_node Node

fun node_label :: "es_node \<Rightarrow> node" where
  "node_label (ElectricalBus_node b) = label b"
| "node_label (Other_node n) = label n"

record electrical_model = model +
  es_nodes :: "es_node list"

record ElectricalLineBlock =
  ELECTRICAL_BUSES :: "ElectricalBus list"
  voltage_angle_var :: "node \<times> nat \<rightharpoonup> pyval var_data"
  electrical_flow :: "ElectricalLine \<times> nat \<rightharpoonup> constr"
  equate_electrical_flows :: "ElectricalLine \<times> nat \<rightharpoonup> constr"

text \<open>
  Modelled from the spec: the methods \<^verbatim>\<open>_input\<close> and \<^verbatim>\<open>_output\<close> of \<^verbatim>\<open>network.Transformer\<close>
  are not among the sources. The spec gives a line one input bus and one output bus; the
  methods return the first input and the first output, and fail when there is none.
\<close>

definition Transformer_input :: "'a Node_scheme \<Rightarrow> error + node" where
  "Transformer_input n = (case inputs n of [] \<Rightarrow> Inl IndexError | i # _ \<Rightarrow> Inr i)"

definition Transformer_output :: "'a Node_scheme \<Rightarrow> error + node" where
  "Transformer_output n = (case outputs n of [] \<Rightarrow> Inl IndexError | o' # _ \<Rightarrow> Inr o')"

definition electrical_buses :: "electrical_model \<Rightarrow> ElectricalBus list" where
  "electrical_buses m = concat (map (\<lambda>n. case n of ElectricalBus_node b \<Rightarrow> [b] | Other_node _ \<Rightarrow> [])
                                   (es_nodes m))"

text \<open>The voltage angle of every electrical bus and timestep, bounded by
  \<^verbatim>\<open>(b.v_min, b.v_max)\<close>.\<close>

definition voltage_angle_Var :: "ElectricalBus list \<Rightarrow> nat list \<Rightarrow> (node \<times> nat \<rightharpoonup> pyval var_data)" where
  "voltage_angle_Var buses ts =
     map_of (map (\<lambda>(b, t). ((label b, t),
                \<lparr> var_lb = v_min b, var_ub = v_max b, var_within = Reals, var_value = None,
                  var_fixed = False \<rparr>)) (List.product buses ts))"

text \<open>\<^verbatim>\<open>Set.first()\<close>, \<^verbatim>\<open>logging.info(msg)\<close> (which returns \<^verbatim>\<open>None\<close>) and the attribute
  \<^verbatim>\<open>format\<close>, which a string has and \<^verbatim>\<open>None\<close> has not.\<close>

definition Set_first :: "'a list \<Rightarrow> error + 'a" where
  "Set_first members = (if members = [] then Inl IndexError else Inr (hd members))"

definition logging_info :: "string \<Rightarrow> pyval" where
  "logging_info msg = PNone"

definition call_format :: "pyval \<Rightarrow> string \<Rightarrow> error + pyval" where
  "call_format x arg = (case x of PStr s \<Rightarrow> Inr (PStr s) | _ \<Rightarrow> Inl AttributeError)"

definition set_slack :: "electrical_model \<Rightarrow> ElectricalBus \<Rightarrow> electrical_model" where
  "set_slack m bus =
     m\<lparr>es_nodes := map (\<lambda>n. case n of
                           ElectricalBus_node b \<Rightarrow>
                             if label b = label bus then ElectricalBus_node (b\<lparr>slack := PBool True\<rparr>)
                             else n
                         | Other_node _ \<Rightarrow> n) (es_nodes m)\<rparr>"

definition choose_slack :: "electrical_model \<Rightarrow> ElectricalBus list \<Rightarrow> error + electrical_model" where
  "choose_slack m buses =
     (if \<not> py_in (PBool True) (map slack buses)
      then ebind (Set_first buses) (\<lambda>bus.
           ebind (call_format (logging_info ''No slack bus set, setting bus {} as slack  bus'')
                    (label bus)) (\<lambda>_.
           Inr (set_slack m bus)))
      else Inr m)"

text \<open>\<^verbatim>\<open>O[n].slack\<close>: the attribute of the bus object the line points to.\<close>

definition slack_of :: "electrical_model \<Rightarrow> node \<Rightarrow> error + pyval" where
  "slack_of m l =
     (case find (\<lambda>n. node_label n = l) (es_nodes m) of
        Some (ElectricalBus_node b) \<Rightarrow> Inr (slack b)
      | _ \<Rightarrow> Inl AttributeError)"

text \<open>\<^verbatim>\<open>try: ... except: raise ValueError(...)\<close>.\<close>

definition try_except :: "error + 'a \<Rightarrow> error + 'a" where
  "try_except r = (case r of Inl e \<Rightarrow> Inl ValueError | Inr x \<Rightarrow> Inr x)"

definition reciprocal :: "real \<Rightarrow> error + real" where
  "reciprocal x = (if x = 0 then Inl ZeroDivisionError else Inr (1 / x))"

definition voltage_angle_relation_step ::
  "electrical_model \<Rightarrow> (ElectricalLine \<rightharpoonup> node) \<Rightarrow> (ElectricalLine \<rightharpoonup> node) \<Rightarrow> nat
     \<Rightarrow> ElectricalLine \<Rightarrow> ElectricalLineBlock \<Rightarrow> error + ElectricalLineBlock" where
  "voltage_angle_relation_step m I O' t n block =
     ebind (getitem O' n) (\<lambda>o'.
     ebind (slack_of m o') (\<lambda>s.
     ebind (if is_True s
            then ebind (m_flow m (label n) o' t) (\<lambda>lhs. Inr (Some (lhs, Num 0)))
            else Inr None) (\<lambda>assigned_if_slack.
     ebind (try_except
              (ebind (m_flow m (label n) o' t) (\<lambda>lhs.
               ebind (seq_at (reactance n) t) (\<lambda>x.
               ebind (reciprocal x) (\<lambda>r.
               ebind (getitem I n) (\<lambda>i.
               ebind (var_at (voltage_angle_var block) (i, t) (voltage_angle i t)) (\<lambda>a_in.
               ebind (var_at (voltage_angle_var block) (o', t) (voltage_angle o' t)) (\<lambda>a_out.
               Inr (lhs, Mul (Num r) (Sub a_in a_out)))))))))) (\<lambda>(lhs, rhs).
     ebind (constraint_add (electrical_flow block) (n, t) (py_eq lhs rhs)) (\<lambda>ef.
     ebind (m_flow m (label n) o' t) (\<lambda>f_out.
     ebind (getitem I n) (\<lambda>i.
     ebind (m_flow m i (label n) t) (\<lambda>f_in.
     ebind (constraint_add (equate_electrical_flows block) (n, t) (py_eq f_out f_in)) (\<lambda>eq.
     Inr (block\<lparr>electrical_flow := ef, equate_electrical_flows := eq\<rparr>))))))))))"

definition voltage_angle_relation ::
  "electrical_model \<Rightarrow> (ElectricalLine \<rightharpoonup> node) \<Rightarrow> (ElectricalLine \<rightharpoonup> node)
     \<Rightarrow> ElectricalLine list \<Rightarrow> ElectricalLineBlock \<Rightarrow> error + ElectricalLineBlock" where
  "voltage_angle_relation m I O' grp block =
     for_loop (TIMESTEPS m) (\<lambda>t. for_loop grp (voltage_angle_relation_step m I O' t)) block"

definition ElectricalLineBlock_create ::
  "electrical_model \<Rightarrow> ElectricalLine list option
     \<Rightarrow> error + electrical_model \<times> ElectricalLineBlock option" where
  "ElectricalLineBlock_create m grp =
     (case grp of None \<Rightarrow> Inr (m, None)
      | Some g \<Rightarrow>
          ebind (emap Transformer_input g) (\<lambda>ins.
          ebind (emap Transformer_output g) (\<lambda>outs.
          ebind (choose_slack m (electrical_buses m)) (\<lambda>m'.
          ebind (voltage_angle_relation m' (map_of (zip g ins)) (map_of (zip g outs)) g
                   \<lparr> ELECTRICAL_BUSES = electrical_buses m,
                     voltage_angle_var = voltage_angle_Var (electrical_buses m) (TIMESTEPS m),
                     electrical_flow = Map.empty,
                     equate_electrical_flows = Map.empty \<rparr>) (\<lambda>block.
          Inr (m', Some block))))))"

section \<open>Example topologies\<close>




text \<open>A storage of capacity 100 that starts half full, charged from and discharged to one bus.\<close>

definition storage_example_model :: model where
  "storage_example_model =
     \<lparr> TIMESTEPS = [0, 1], timesteps = [0, 1], timeincrement = 1,
       previous_timesteps = periodic_previous [0, 1],
       FLOWS = [(''bel'', ''sto''), (''sto'', ''bel'')],
       flows = Map.empty, INPUTS = [''sto'' \<mapsto> ''bel''], OUTPUTS = [''sto'' \<mapsto> ''bel''],
       positive_flow_gradient_var = Map.empty, negative_flow_gradient_var = Map.empty \<rparr>"

definition storage_example :: Storage where
  "storage_example =
     \<lparr> label = ''sto'', inputs = [''bel''], outputs = [''bel''],
       nominal_capacity = Some 100, capacity_min = Repeated 0, capacity_max = Repeated 1,
       capacity_loss = Repeated 0, inflow_conversion_factor = Repeated 1,
       outflow_conversion_factor = Repeated 1, initial_capacity = Some (1 / 2),
       nominal_input_capacity_ratio = 1, nominal_output_capacity_ratio = 1,
       storage_fixed_costs = None, storage_investment = None \<rparr>"

text \<open>A storage and its two flows, all sized by investment; variants of the storage and of
  one flow whose investment has no \<^verbatim>\<open>ep_costs\<close>.\<close>

definition invest_flow_example :: Flow where
  "invest_flow_example =
     \<lparr> nominal_value = None, flow_min = Repeated 0, flow_max = Repeated 1,
       summed_max = None, summed_min = None,
       positive_gradient = Repeated None, negative_gradient = Repeated None,
       fixed_costs = None, variable_costs = Repeated None, actual_value = Repeated 0,
       fixed = False, investment = Some \<lparr> maximum = 1000, ep_costs = Some 5 \<rparr>,
       discrete = None \<rparr>"

definition invest_example_model :: model where
  "invest_example_model =
     \<lparr> TIMESTEPS = [0, 1], timesteps = [0, 1], timeincrement = 1,
       previous_timesteps = periodic_previous [0, 1],
       FLOWS = [(''bel'', ''sto''), (''sto'', ''bel'')],
       flows = [(''bel'', ''sto'') \<mapsto> invest_flow_example, (''sto'', ''bel'') \<mapsto> invest_flow_example],
       INPUTS = [''sto'' \<mapsto> ''bel''], OUTPUTS = [''sto'' \<mapsto> ''bel''],
       positive_flow_gradient_var = Map.empty, negative_flow_gradient_var = Map.empty \<rparr>"

definition invest_flow_group :: "(node \<times> node \<times> Flow) list" where
  "invest_flow_group = [(''bel'', ''sto'', invest_flow_example), (''sto'', ''bel'', invest_flow_example)]"

definition invest_storage_example :: Storage where
  "invest_storage_example =
     \<lparr> label = ''sto'', inputs = [''bel''], outputs = [''bel''],
       nominal_capacity = None, capacity_min = Listed [0, 1 / 5], capacity_max = Repeated 1,
       capacity_loss = Repeated 0, inflow_conversion_factor = Repeated 1,
       outflow_conversion_factor = Repeated 1, initial_capacity = None,
       nominal_input_capacity_ratio = 1 / 5, nominal_output_capacity_ratio = 1 / 5,
       storage_fixed_costs = None,
       storage_investment = Some \<lparr> maximum = 1000, ep_costs = Some 10 \<rparr> \<rparr>"

definition invest_flow_block_example :: "InvestmentFlow_block option" where
  "invest_flow_block_example = projr (InvestmentFlow_create invest_example_model (Some invest_flow_group))"





text \<open>A discrete flow with a minimum of one half, start costs and both gradients.\<close>

definition discrete_flow_example :: Flow where
  "discrete_flow_example =
     \<lparr> nominal_value = Some 10, flow_min = Repeated (1 / 2), flow_max = Repeated 1,
       summed_max = None, summed_min = None,
       positive_gradient = Repeated (Some (1 / 10)), negative_gradient = Repeated (Some (1 / 10)),
       fixed_costs = None, variable_costs = Repeated None, actual_value = Repeated 0,
       fixed = False, investment = None,
       discrete = Some \<lparr> start_costs = Some 5 \<rparr> \<rparr>"

definition discrete_example_model :: model where
  "discrete_example_model =
     \<lparr> TIMESTEPS = [0, 1], timesteps = [0, 1], timeincrement = 1,
       previous_timesteps = periodic_previous [0, 1],
       FLOWS = [(''src'', ''bus'')],
       flows = [(''src'', ''bus'') \<mapsto> discrete_flow_example],
       INPUTS = Map.empty, OUTPUTS = Map.empty,
       positive_flow_gradient_var = Map.empty, negative_flow_gradient_var = Map.empty \<rparr>"

definition discrete_example_group :: "(node \<times> node \<times> Flow) list" where
  "discrete_example_group = [(''src'', ''bus'', discrete_flow_example)]"

text \<open>A flow with both gradients over three timesteps, and a valuation in which the flow
  drops from 10 to 0 and rises again.\<close>

definition gradient_flow_example :: Flow where
  "gradient_flow_example =
     \<lparr> nominal_value = Some 10, flow_min = Repeated 0, flow_max = Repeated 1,
       summed_max = None, summed_min = None,
       positive_gradient = Repeated (Some (1 / 5)), negative_gradient = Repeated (Some (1 / 10)),
       fixed_costs = None, variable_costs = Repeated None, actual_value = Repeated 0,
       fixed = False, investment = None, discrete = None \<rparr>"

definition free_gradient_var :: "real option var_data" where
  "free_gradient_var =
     \<lparr> var_lb = None, var_ub = None, var_within = NonNegativeReals, var_value = None,
       var_fixed = False \<rparr>"

definition gradient_example_model :: model where
  "gradient_example_model =
     \<lparr> TIMESTEPS = [0, 1, 2], timesteps = [0, 1, 2], timeincrement = 1,
       previous_timesteps = periodic_previous [0, 1, 2],
       FLOWS = [(''src'', ''bus'')],
       flows = [(''src'', ''bus'') \<mapsto> gradient_flow_example],
       INPUTS = Map.empty, OUTPUTS = Map.empty,
       positive_flow_gradient_var =
         [(''src'', ''bus'', 0) \<mapsto> free_gradient_var, (''src'', ''bus'', 1) \<mapsto> free_gradient_var,
          (''src'', ''bus'', 2) \<mapsto> free_gradient_var],
       negative_flow_gradient_var =
         [(''src'', ''bus'', 0) \<mapsto> free_gradient_var, (''src'', ''bus'', 1) \<mapsto> free_gradient_var,
          (''src'', ''bus'', 2) \<mapsto> free_gradient_var] \<rparr>"

definition gradient_example_group :: "(node \<times> node \<times> Flow) list" where
  "gradient_example_group = [(''src'', ''bus'', gradient_flow_example)]"

definition ramp_down_valuation :: "var \<Rightarrow> real" where
  "ramp_down_valuation x =
     (if x = flow ''src'' ''bus'' 0 \<or> x = flow ''src'' ''bus'' 2 then 10 else 0)"

text \<open>Two electrical buses joined by a line of reactance 1, with the second bus marked
  slack or not, and a valuation with a voltage angle of 1 at the first bus.\<close>

definition bus_b0 :: ElectricalBus where
  "bus_b0 = ElectricalBus_init ''b0'' [''slack'' \<mapsto> PBool False]"

definition bus_b1_slack :: ElectricalBus where
  "bus_b1_slack = ElectricalBus_init ''b1'' [''slack'' \<mapsto> PBool True]"

definition bus_b1 :: ElectricalBus where
  "bus_b1 = ElectricalBus_init ''b1'' [''slack'' \<mapsto> PBool False]"

definition line_example :: ElectricalLine where
  "line_example = \<lparr> label = ''line'', inputs = [''b0''], outputs = [''b1''], reactance = Repeated 1 \<rparr>"

definition electrical_example_model :: "ElectricalBus \<Rightarrow> electrical_model" where
  "electrical_example_model b1 =
     \<lparr> TIMESTEPS = [0], timesteps = [0], timeincrement = 1,
       previous_timesteps = periodic_previous [0],
       FLOWS = [(''b0'', ''line''), (''line'', ''b1'')],
       flows = Map.empty, INPUTS = [''line'' \<mapsto> ''b0''], OUTPUTS = [''line'' \<mapsto> ''b1''],
       positive_flow_gradient_var = Map.empty, negative_flow_gradient_var = Map.empty,
       es_nodes = [ElectricalBus_node bus_b0, ElectricalBus_node b1,
                   Other_node \<lparr> label = ''line'', inputs = [''b0''], outputs = [''b1''] \<rparr>] \<rparr>"

definition angle_valuation :: "var \<Rightarrow> real" where
  "angle_valuation x =
     (if x = voltage_angle ''b0'' 0 \<or> x = flow ''line'' ''b1'' 0 \<or> x = flow ''b0'' ''line'' 0
      then 1 else 0)"

text \<open>The discrete flow with a minimum of 0 at the first timestep and one half at the second.\<close>

definition discrete_flow_late_minimum :: Flow where
  "discrete_flow_late_minimum = discrete_flow_example\<lparr> flow_min := Listed [0, 1 / 2] \<rparr>"

definition discrete_late_minimum_model :: model where
  "discrete_late_minimum_model =
     discrete_example_model\<lparr> flows := [(''src'', ''bus'') \<mapsto> discrete_flow_late_minimum] \<rparr>"

definition discrete_late_minimum_group :: "(node \<times> node \<times> Flow) list" where
  "discrete_late_minimum_group = [(''src'', ''bus'', discrete_flow_late_minimum)]"

section \<open>Properties\<close>

text \<open>
  C10. An ElectricalBus constructed without the keyword \<^verbatim>\<open>slack\<close> has \<^verbatim>\<open>slack = True\<close>; without
  \<^verbatim>\<open>v_max\<close> and \<^verbatim>\<open>v_min\<close> it has the bounds 1000 and -1000. Hence, when all buses of a topology
  are built with defaults, every one of them is marked slack: the number of slack buses
  is the number of buses, so with two or more buses it is not one.
\<close>

theorem ElectricalBus_default_slack:
  assumes "kwargs ''slack'' = None"
  shows "slack (ElectricalBus_init lbl kwargs) = PBool True
       \<and> (kwargs ''v_max'' = None \<longrightarrow> v_max (ElectricalBus_init lbl kwargs) = PNum 1000)
       \<and> (kwargs ''v_min'' = None \<longrightarrow> v_min (ElectricalBus_init lbl kwargs) = PNum (- 1000))
       \<and> length (filter (\<lambda>b. is_True (slack b)) (map (\<lambda>l. ElectricalBus_init l kwargs) lbls))
           = length lbls"
proof -
  have s: "\<And>l. slack (ElectricalBus_init l kwargs) = PBool True"
    using assms by (simp add: ElectricalBus_init_def kwargs_get_def)
  have "filter (\<lambda>b. is_True (slack b)) (map (\<lambda>l. ElectricalBus_init l kwargs) lbls)
          = map (\<lambda>l. ElectricalBus_init l kwargs) lbls"
    by (rule filter_True) (auto simp: s is_True_def)
  then show ?thesis
    using s by (simp add: ElectricalBus_init_def kwargs_get_def)
qed

theorem ElectricalBus_default_slack_witness:
  "slack (ElectricalBus_init ''b0'' Map.empty) = PBool True
   \<and> v_max (ElectricalBus_init ''b0'' Map.empty) = PNum 1000
   \<and> v_min (ElectricalBus_init ''b0'' Map.empty) = PNum (- 1000)
   \<and> length (filter (\<lambda>b. is_True (slack b))
        (map (\<lambda>l. ElectricalBus_init l Map.empty) [''b0'', ''b1''])) = length [''b0'', ''b1'']"
proof -
  have h: "(Map.empty :: string \<rightharpoonup> pyval) k = None" for k by simp
  from ElectricalBus_default_slack [OF h, of "''b0''" "[''b0'', ''b1'']"] h
  show ?thesis by blast
qed

subsection \<open>Loops, sums and index sets\<close>

lemma ebind_Inr_iff: "ebind r f = Inr y \<longleftrightarrow> (\<exists>x. r = Inr x \<and> f x = Inr y)"
  by (cases r) (auto simp: ebind_def)

lemma for_loop_append:
  "for_loop (xs @ ys) body s = ebind (for_loop xs body s) (for_loop ys body)"
  by (induction xs arbitrary: s) (auto simp: ebind_def split: sum.splits)



text \<open>A loop whose body computes a value from the key and stores it (or skips).\<close>

lemma for_loop_store:
  assumes step: "\<And>k s s1. body k s = Inr s1 \<Longrightarrow>
            \<exists>v. f k = Inr v \<and> (\<forall>j. get s1 j =
               (if j = k then (case g v of None \<Rightarrow> get s j | Some c \<Rightarrow> Some c) else get s j))"
    and run: "for_loop ks body s = Inr s'"
  shows "(\<forall>k\<in>set ks. \<exists>v. f k = Inr v)
       \<and> (\<forall>j. get s' j = (if j \<in> set ks
                       then (case g (projr (f j)) of None \<Rightarrow> get s j | Some c \<Rightarrow> Some c)
                       else get s j))"
  using run
proof (induction ks arbitrary: s)
  case Nil
  then show ?case by simp
next
  case (Cons x xs)
  from Cons.prems obtain s1 where b: "body x s = Inr s1" and r: "for_loop xs body s1 = Inr s'"
    by (auto split: sum.splits)
  from step [OF b] obtain v where v: "f x = Inr v"
    and g: "\<And>j. get s1 j = (if j = x then (case g v of None \<Rightarrow> get s j | Some c \<Rightarrow> Some c) else get s j)"
    by blast
  from Cons.IH [OF r] have all: "\<forall>k\<in>set xs. \<exists>v. f k = Inr v"
    and res: "\<And>j. get s' j = (if j \<in> set xs
                       then (case g (projr (f j)) of None \<Rightarrow> get s1 j | Some c \<Rightarrow> Some c)
                       else get s1 j)" by blast+
  have "get s' j = (if j \<in> set (x # xs)
                       then (case g (projr (f j)) of None \<Rightarrow> get s j | Some c \<Rightarrow> Some c)
                       else get s j)" for j
    unfolding res [of j] g [of j] using v by (simp split: option.splits)
  with all v show ?case by simp
qed

lemma Constraint_Inr:
  assumes "Constraint idx rule = Inr cs"
  shows "(\<forall>k\<in>set idx. \<exists>c. rule k = Inr c \<and> cs k = Some c) \<and> (\<forall>k. k \<notin> set idx \<longrightarrow> cs k = None)"
proof -
  let ?body = "\<lambda>k cs. ebind (rule k) (\<lambda>c. Inr (cs(k \<mapsto> c)))"
  have step: "\<exists>v. rule k = Inr v \<and> (\<forall>j. s1 j =
               (if j = k then (case Some v of None \<Rightarrow> s j | Some c \<Rightarrow> Some c) else s j))"
    if "?body k s = Inr s1" for k s s1
    using that by (auto simp: ebind_Inr_iff)
  from assms have run: "for_loop idx ?body Map.empty = Inr cs" by (simp add: Constraint_def)
  from for_loop_store [where get = "\<lambda>s. s" and g = Some and f = rule and body = ?body, OF step run]
  have all: "\<forall>k\<in>set idx. \<exists>v. rule k = Inr v"
    and res: "\<And>j. cs j = (if j \<in> set idx then Some (projr (rule j)) else None)"
    by simp_all
  show ?thesis
  proof (intro conjI ballI allI impI)
    fix k assume k: "k \<in> set idx"
    with all obtain c where "rule k = Inr c" by blast
    with res [of k] k show "\<exists>c. rule k = Inr c \<and> cs k = Some c" by simp
  next
    fix k assume "k \<notin> set idx"
    with res [of k] show "cs k = None" by simp
  qed
qed




lemma m_flow_Inr: "m_flow m i j t = Inr e \<Longrightarrow> e = V (flow i j t)"
  by (auto simp: m_flow_def split: if_splits)


subsection \<open>Bus balance\<close>


subsection \<open>Storages with a fixed size\<close>

lemma for_loop_establish:
  assumes run: "for_loop xs body s = Inr s'" and x: "x \<in> set xs"
    and est: "\<And>s s1. body x s = Inr s1 \<Longrightarrow> P s1"
    and pres: "\<And>y s s1. y \<in> set xs \<Longrightarrow> P s \<Longrightarrow> body y s = Inr s1 \<Longrightarrow> P s1"
  shows "P s'"
proof -
  have keep: "for_loop ys body s0 = Inr s1 \<Longrightarrow> set ys \<subseteq> set xs \<Longrightarrow> P s0 \<Longrightarrow> P s1" for ys s0 s1
  proof (induction ys arbitrary: s0)
    case Nil
    then show ?case by simp
  next
    case (Cons y ys)
    from Cons.prems(1) obtain s2 where b: "body y s0 = Inr s2" and r: "for_loop ys body s2 = Inr s1"
      by (auto split: sum.splits)
    from Cons.prems(2) have "y \<in> set xs" by simp
    from pres [OF this Cons.prems(3) b] have "P s2" .
    with Cons.IH [OF r] Cons.prems(2) show ?case by simp
  qed
  from x obtain ys zs where xs: "xs = ys @ x # zs" by (auto simp: in_set_conv_decomp)
  from run obtain s1 where rest: "for_loop (x # zs) body s1 = Inr s'"
    unfolding xs for_loop_append ebind_Inr_iff by blast
  then obtain s2 where b: "body x s1 = Inr s2" and r: "for_loop zs body s2 = Inr s'"
    by (cases "body x s1") auto
  from est [OF b] have "P s2" .
  moreover have "set zs \<subseteq> set xs" unfolding xs by auto
  ultimately show ?thesis using keep [OF r] by blast
qed

lemma var_at_Inr: "var_at vs k x = Inr e \<Longrightarrow> e = V x"
  by (auto simp: var_at_def split: option.splits)

lemma number_Inr: "number x = Inr r \<longleftrightarrow> x = Some r"
  by (cases x) (auto simp: number_def)

lemma getitem_Inr: "getitem d k = Inr v \<longleftrightarrow> d k = Some v"
  by (cases "d k") (auto simp: getitem_def)

lemma py_last_Inr: "py_last xs = Inr x \<longleftrightarrow> xs \<noteq> [] \<and> x = last xs"
  by (auto simp: py_last_def)

lemma py_div_Inr: "py_div e x = Inr q \<longleftrightarrow> x \<noteq> 0 \<and> q = Div e (Num x)"
  by (auto simp: py_div_def)

lemma storage_balance_rule_Inr:
  assumes "storage_balance_rule m cap (n, t) = Inr c"
    and cap: "\<And>k e. cap k = Inr e \<Longrightarrow> e = V (x (label (fst k)) (snd k))"
  shows "\<exists>e p i j loss eta_in eta_out.
      c = Rel_eq e (Num 0)
    \<and> previous_timesteps m t = Some p \<and> INPUTS m (label n) = Some i \<and> OUTPUTS m (label n) = Some j
    \<and> seq_at (capacity_loss n) t = Inr loss
    \<and> seq_at (inflow_conversion_factor n) t = Inr eta_in
    \<and> seq_at (outflow_conversion_factor n) t = Inr eta_out \<and> eta_out \<noteq> 0
    \<and> (\<forall>v. eval v e = v (x (label n) t) - v (x (label n) p) * (1 - loss)
            - v (flow i (label n) t) * eta_in * timeincrement m
            + v (flow (label n) j t) / eta_out * timeincrement m)"
proof -
  from assms(1) obtain c_t p c_p loss i f_in eta_in j f_out eta_out q where
    ct: "cap (n, t) = Inr c_t" and p: "previous_timesteps m t = Some p"
    and cp: "cap (n, p) = Inr c_p" and loss: "seq_at (capacity_loss n) t = Inr loss"
    and i: "INPUTS m (label n) = Some i" and fin: "m_flow m i (label n) t = Inr f_in"
    and ein: "seq_at (inflow_conversion_factor n) t = Inr eta_in"
    and j: "OUTPUTS m (label n) = Some j" and fout: "m_flow m (label n) j t = Inr f_out"
    and eout: "seq_at (outflow_conversion_factor n) t = Inr eta_out"
    and q: "eta_out \<noteq> 0" "q = Div f_out (Num eta_out)"
    and c: "c = Rel_eq
       (Add (Add (Add (Add (Num 0) c_t)
                      (Mul (Neg c_p) (Num (1 - loss))))
                 (Mul (Mul (Neg f_in) (Num eta_in)) (Num (timeincrement m))))
            (Mul q (Num (timeincrement m))))
       (Num 0)"
    unfolding storage_balance_rule_def prod.case ebind_Inr_iff getitem_Inr py_div_Inr by blast
  from cap [OF ct] cap [OF cp] have v: "c_t = V (x (label n) t)" "c_p = V (x (label n) p)" by simp_all
  from m_flow_Inr [OF fin] m_flow_Inr [OF fout]
  have f: "f_in = V (flow i (label n) t)" "f_out = V (flow (label n) j t)" .
  show ?thesis
    unfolding c v f q
    using p i j loss ein eout q(1) by simp
qed

lemma periodic_previous_first:
  assumes "t \<in> set ts" and "t = hd ts" and "periodic_previous ts t = Some p"
  shows "p = last ts"
proof -
  from assms(1) obtain a as where ts: "ts = a # as" by (cases ts) auto
  with assms(2,3) show ?thesis by (simp add: periodic_previous_def)
qed

lemma set_initial_capacity_loop:
  assumes run: "for_loop grp (set_initial_capacity m) cap0 = Inr cap" and n: "n \<in> set grp"
    and ic: "initial_capacity n = Some ic"
  shows "\<exists>nc d. timesteps m \<noteq> [] \<and> nominal_capacity n = Some nc
      \<and> cap (n, last (timesteps m)) = Some d \<and> var_fixed d \<and> var_value d = Some (ic * nc)"
proof (rule for_loop_establish [OF run n])
  fix s s1 assume "set_initial_capacity m n s = Inr s1"
  with ic show "\<exists>nc d. timesteps m \<noteq> [] \<and> nominal_capacity n = Some nc
      \<and> s1 (n, last (timesteps m)) = Some d \<and> var_fixed d \<and> var_value d = Some (ic * nc)"
    by (auto simp: set_initial_capacity_def set_and_fix_def ebind_Inr_iff py_last_Inr number_Inr
        split: option.splits)
next
  fix y s s1
  assume P: "\<exists>nc d. timesteps m \<noteq> [] \<and> nominal_capacity n = Some nc
      \<and> s (n, last (timesteps m)) = Some d \<and> var_fixed d \<and> var_value d = Some (ic * nc)"
    and b: "set_initial_capacity m y s = Inr s1"
  show "\<exists>nc d. timesteps m \<noteq> [] \<and> nominal_capacity n = Some nc
      \<and> s1 (n, last (timesteps m)) = Some d \<and> var_fixed d \<and> var_value d = Some (ic * nc)"
  proof (cases "initial_capacity y")
    case None
    with b P show ?thesis by (simp add: set_initial_capacity_def)
  next
    case (Some icy)
    show ?thesis
    proof (cases "y = n")
      case True
      with b ic show ?thesis
        by (auto simp: set_initial_capacity_def set_and_fix_def ebind_Inr_iff py_last_Inr number_Inr
            split: option.splits)
    next
      case False
      with b P Some show ?thesis
        by (auto simp: set_initial_capacity_def set_and_fix_def ebind_Inr_iff py_last_Inr number_Inr
            split: option.splits)
    qed
  qed
qed

lemma Storage_create_balance:
  assumes "Storage_create m (Some grp) = Inr (Some blk)" and "n \<in> set grp" and "t \<in> set (TIMESTEPS m)"
  shows "(\<exists>e p i j loss eta_in eta_out.
      Storage_balance blk (n, t) = Some (Rel_eq e (Num 0))
    \<and> previous_timesteps m t = Some p \<and> INPUTS m (label n) = Some i \<and> OUTPUTS m (label n) = Some j
    \<and> seq_at (capacity_loss n) t = Inr loss
    \<and> seq_at (inflow_conversion_factor n) t = Inr eta_in
    \<and> seq_at (outflow_conversion_factor n) t = Inr eta_out \<and> eta_out \<noteq> 0
    \<and> (\<forall>v. eval v e = v (Storage_capacity (label n) t) - v (Storage_capacity (label n) p) * (1 - loss)
            - v (flow i (label n) t) * eta_in * timeincrement m
            + v (flow (label n) j t) / eta_out * timeincrement m)
    \<and> (previous_timesteps m = periodic_previous (TIMESTEPS m) \<and> t = hd (TIMESTEPS m)
          \<longrightarrow> p = last (TIMESTEPS m)))
    \<and> (\<forall>ic. initial_capacity n = Some ic \<longrightarrow>
          (\<exists>nc d. timesteps m \<noteq> [] \<and> nominal_capacity n = Some nc
             \<and> Storage_capacity_var blk (n, last (timesteps m)) = Some d
             \<and> var_fixed d \<and> var_value d = Some (ic * nc)))"
proof -
  from assms(1) obtain cap0 cap bal where
    "Var (List.product grp (TIMESTEPS m)) Reals storage_capacity_bound_rule = Inr cap0"
    and loop: "for_loop grp (set_initial_capacity m) cap0 = Inr cap"
    and bal: "Constraint (List.product grp (TIMESTEPS m))
                   (storage_balance_rule m
                      (\<lambda>(n, t). var_at cap (n, t) (Storage_capacity (label n) t))) = Inr bal"
    and blk: "blk = \<lparr> STORAGES = grp, Storage_capacity_var = cap, Storage_balance = bal \<rparr>"
    by (auto simp: Storage_create_def ebind_Inr_iff)
  from assms(2,3) have mem: "(n, t) \<in> set (List.product grp (TIMESTEPS m))" by simp
  with Constraint_Inr [OF bal] obtain c where
    c: "storage_balance_rule m (\<lambda>(n, t). var_at cap (n, t) (Storage_capacity (label n) t)) (n, t) = Inr c"
    and b: "bal (n, t) = Some c" by blast
  have capv: "e = V (Storage_capacity (label (fst k)) (snd k))"
    if "(\<lambda>(n, t). var_at cap (n, t) (Storage_capacity (label n) t)) k = Inr e" for k e
    using that by (cases k) (auto dest: var_at_Inr)
  have "\<exists>e p i j loss eta_in eta_out.
      c = Rel_eq e (Num 0)
    \<and> previous_timesteps m t = Some p \<and> INPUTS m (label n) = Some i \<and> OUTPUTS m (label n) = Some j
    \<and> seq_at (capacity_loss n) t = Inr loss
    \<and> seq_at (inflow_conversion_factor n) t = Inr eta_in
    \<and> seq_at (outflow_conversion_factor n) t = Inr eta_out \<and> eta_out \<noteq> 0
    \<and> (\<forall>v. eval v e = v (Storage_capacity (label n) t) - v (Storage_capacity (label n) p) * (1 - loss)
            - v (flow i (label n) t) * eta_in * timeincrement m
            + v (flow (label n) j t) / eta_out * timeincrement m)"
    by (rule storage_balance_rule_Inr [where x = Storage_capacity, OF c]) (rule capv)
  then obtain e p i j loss eta_in eta_out where
    r: "c = Rel_eq e (Num 0)"
     "previous_timesteps m t = Some p" "INPUTS m (label n) = Some i" "OUTPUTS m (label n) = Some j"
     "seq_at (capacity_loss n) t = Inr loss"
     "seq_at (inflow_conversion_factor n) t = Inr eta_in"
     "seq_at (outflow_conversion_factor n) t = Inr eta_out" "eta_out \<noteq> 0"
     "\<forall>v. eval v e = v (Storage_capacity (label n) t) - v (Storage_capacity (label n) p) * (1 - loss)
            - v (flow i (label n) t) * eta_in * timeincrement m
            + v (flow (label n) j t) / eta_out * timeincrement m"
    by blast
  have per: "previous_timesteps m = periodic_previous (TIMESTEPS m) \<and> t = hd (TIMESTEPS m)
          \<longrightarrow> p = last (TIMESTEPS m)"
    using periodic_previous_first [OF assms(3)] r(2) by auto
  have first: "\<exists>e p i j loss eta_in eta_out.
      Storage_balance blk (n, t) = Some (Rel_eq e (Num 0))
    \<and> previous_timesteps m t = Some p \<and> INPUTS m (label n) = Some i \<and> OUTPUTS m (label n) = Some j
    \<and> seq_at (capacity_loss n) t = Inr loss
    \<and> seq_at (inflow_conversion_factor n) t = Inr eta_in
    \<and> seq_at (outflow_conversion_factor n) t = Inr eta_out \<and> eta_out \<noteq> 0
    \<and> (\<forall>v. eval v e = v (Storage_capacity (label n) t) - v (Storage_capacity (label n) p) * (1 - loss)
            - v (flow i (label n) t) * eta_in * timeincrement m
            + v (flow (label n) j t) / eta_out * timeincrement m)
    \<and> (previous_timesteps m = periodic_previous (TIMESTEPS m) \<and> t = hd (TIMESTEPS m)
          \<longrightarrow> p = last (TIMESTEPS m))"
    using r per b unfolding blk by (intro exI [of _ e] exI [of _ p] exI [of _ i] exI [of _ j]
        exI [of _ loss] exI [of _ eta_in] exI [of _ eta_out]) simp
  have second: "\<forall>ic. initial_capacity n = Some ic \<longrightarrow>
          (\<exists>nc d. timesteps m \<noteq> [] \<and> nominal_capacity n = Some nc
             \<and> Storage_capacity_var blk (n, last (timesteps m)) = Some d
             \<and> var_fixed d \<and> var_value d = Some (ic * nc))"
    using set_initial_capacity_loop [OF loop assms(2)] unfolding blk by simp
  from first second show ?thesis by (rule conjI)
qed

lemmas storage_eval_defs = Storage_create_def Var_def Constraint_def storage_capacity_bound_rule_def
  set_initial_capacity_def set_and_fix_def storage_balance_rule_def ebind_def number_def
  getitem_def py_last_def py_div_def var_at_def m_flow_def periodic_previous_def

subsection \<open>Storages with an investment\<close>

lemma efilter_Inr:
  "efilter p xs = Inr ys \<Longrightarrow>
     (\<forall>x\<in>set xs. \<exists>b. p x = Inr b) \<and> set ys = {x \<in> set xs. p x = Inr True}"
proof (induction xs arbitrary: ys)
  case Nil
  then show ?case by simp
next
  case (Cons x xs)
  from Cons.prems obtain b zs where b: "p x = Inr b" and zs: "efilter p xs = Inr zs"
    and ys: "ys = (if b then x # zs else zs)"
    by (auto split: sum.splits)
  from Cons.IH [OF zs] b ys show ?case by auto
qed

lemma emap_all_Inr: "emap f xs = Inr ys \<Longrightarrow> x \<in> set xs \<Longrightarrow> \<exists>y. f x = Inr y \<and> y \<in> set ys"
  by (induction xs arbitrary: ys) (auto split: sum.splits)

lemma emap_set_Inr: "emap f xs = Inr ys \<Longrightarrow> y \<in> set ys \<Longrightarrow> \<exists>x\<in>set xs. f x = Inr y"
  by (induction xs arbitrary: ys) (auto split: sum.splits)

lemma foldl_plus_sum_list: "foldl (+) a xs = a + sum_list (xs :: real list)"
  by (induction xs arbitrary: a) simp_all

lemma sum_list_pos_nonzero: "0 < sum_list (xs :: real list) \<Longrightarrow> \<exists>x\<in>set xs. x \<noteq> 0"
  by (induction xs) auto

lemma capacity_min_sum_positive_Inr:
  "capacity_min_sum_positive m n = Inr b \<longleftrightarrow>
     (\<exists>xs. emap (seq_at (capacity_min n)) (TIMESTEPS m) = Inr xs \<and> b = (0 < sum_list xs))"
  by (auto simp: capacity_min_sum_positive_def ebind_Inr_iff foldl_plus_sum_list)

lemma invest_capacity_at_Inr:
  "invest_capacity_at cap (n, t) = Inr e \<Longrightarrow> e = V (InvestmentStorage_capacity (label n) t)"
  by (auto simp: invest_capacity_at_def dest: var_at_Inr)

lemma max_capacity_invest_rule_Inr:
  "max_capacity_invest_rule cap invest (n, t) = Inr c \<Longrightarrow>
     \<exists>cmax. seq_at (capacity_max n) t = Inr cmax
       \<and> c = Rel_le (V (InvestmentStorage_capacity (label n) t))
                    (Mul (Num cmax) (V (InvestmentStorage_invest (label n))))"
  by (auto simp: max_capacity_invest_rule_def ebind_Inr_iff
      dest!: invest_capacity_at_Inr var_at_Inr)

lemma min_investstorage_rule_Inr:
  "min_investstorage_rule cap invest (n, t) = Inr c \<Longrightarrow>
     \<exists>cmin. seq_at (capacity_min n) t = Inr cmin
       \<and> c = Rel_le (V (InvestmentStorage_capacity (label n) t))
                    (Mul (Num cmin) (V (InvestmentStorage_invest (label n))))"
  by (auto simp: min_investstorage_rule_def ebind_Inr_iff
      dest!: invest_capacity_at_Inr var_at_Inr)

lemma InvestmentStorage_create_bounds:
  assumes "InvestmentStorage_create m ifb (Some grp) = Inr (Some blk)"
    and "n \<in> set grp" and "t \<in> set (TIMESTEPS m)"
  shows "\<exists>cmax cmin cmins.
      seq_at (capacity_max n) t = Inr cmax \<and> seq_at (capacity_min n) t = Inr cmin
    \<and> emap (seq_at (capacity_min n)) (TIMESTEPS m) = Inr cmins
    \<and> max_capacity_invest blk (n, t) =
        Some (Rel_le (V (InvestmentStorage_capacity (label n) t))
                     (Mul (Num cmax) (V (InvestmentStorage_invest (label n)))))
    \<and> min_investstorage blk (n, t) =
        (if 0 < sum_list cmins
         then Some (Rel_le (V (InvestmentStorage_capacity (label n) t))
                           (Mul (Num cmin) (V (InvestmentStorage_invest (label n)))))
         else None)
    \<and> (0 < sum_list cmins \<longrightarrow> (\<exists>t'\<in>set (TIMESTEPS m). seq_at (capacity_min n) t' \<noteq> Inr 0))"
proof -
  from assms(1) obtain MIN_STORAGES cap invest maxc minc where
    mins: "efilter (capacity_min_sum_positive m) grp = Inr MIN_STORAGES"
    and maxc: "Constraint (List.product grp (TIMESTEPS m)) (max_capacity_invest_rule cap invest) = Inr maxc"
    and minc: "Constraint (List.product MIN_STORAGES (TIMESTEPS m)) (min_investstorage_rule cap invest) = Inr minc"
    and blk: "max_capacity_invest blk = maxc" "min_investstorage blk = minc"
    by (auto simp: InvestmentStorage_create_def ebind_Inr_iff)
  from efilter_Inr [OF mins] assms(2) obtain cmins where
    cmins: "emap (seq_at (capacity_min n)) (TIMESTEPS m) = Inr cmins"
    and memb: "n \<in> set MIN_STORAGES \<longleftrightarrow> 0 < sum_list cmins"
    by (auto simp: capacity_min_sum_positive_Inr)
  from emap_all_Inr [OF cmins assms(3)] obtain cmin where
    cmin: "seq_at (capacity_min n) t = Inr cmin" by blast
  from assms(2,3) have "(n, t) \<in> set (List.product grp (TIMESTEPS m))" by simp
  with Constraint_Inr [OF maxc] obtain c where
    "max_capacity_invest_rule cap invest (n, t) = Inr c" and c: "maxc (n, t) = Some c" by blast
  from max_capacity_invest_rule_Inr [OF this(1)] obtain cmax where
    cmax: "seq_at (capacity_max n) t = Inr cmax"
    and cform: "c = Rel_le (V (InvestmentStorage_capacity (label n) t))
                    (Mul (Num cmax) (V (InvestmentStorage_invest (label n))))" by blast
  have minv: "minc (n, t) =
        (if 0 < sum_list cmins
         then Some (Rel_le (V (InvestmentStorage_capacity (label n) t))
                           (Mul (Num cmin) (V (InvestmentStorage_invest (label n)))))
         else None)"
  proof (cases "0 < sum_list cmins")
    case True
    with memb assms(3) have "(n, t) \<in> set (List.product MIN_STORAGES (TIMESTEPS m))" by simp
    with Constraint_Inr [OF minc] obtain c' where
      "min_investstorage_rule cap invest (n, t) = Inr c'" and c': "minc (n, t) = Some c'" by blast
    from min_investstorage_rule_Inr [OF this(1)] cmin c' True show ?thesis by auto
  next
    case False
    with memb have "(n, t) \<notin> set (List.product MIN_STORAGES (TIMESTEPS m))" by simp
    with Constraint_Inr [OF minc] False show ?thesis by simp
  qed
  have nz: "0 < sum_list cmins \<longrightarrow> (\<exists>t'\<in>set (TIMESTEPS m). seq_at (capacity_min n) t' \<noteq> Inr 0)"
  proof
    assume "0 < sum_list cmins"
    from sum_list_pos_nonzero [OF this] obtain x where x: "x \<in> set cmins" "x \<noteq> 0" by blast
    from emap_set_Inr [OF cmins x(1)] obtain t' where
      t': "t' \<in> set (TIMESTEPS m)" "seq_at (capacity_min n) t' = Inr x" by blast
    from t'(2) x(2) have "seq_at (capacity_min n) t' \<noteq> Inr 0" by simp
    with t'(1) show "\<exists>t'\<in>set (TIMESTEPS m). seq_at (capacity_min n) t' \<noteq> Inr 0" ..
  qed
  from cmax cmin cmins c cform minv nz show ?thesis
    unfolding blk by blast
qed

lemmas invest_eval_defs = InvestmentFlow_create_def InvestmentStorage_create_def Var_def Constraint_def
  investvar_bound_rule_def investflow_bound_rule_def max_investflow_rule_def min_investflow_rule_def
  summed_flow_def summed_max_investflow_rule_def summed_min_investflow_rule_def
  capacity_min_sum_positive_def storage_investvar_bound_rule_def invest_capacity_at_def
  initial_capacity_invest_rule_def investflow_invest_at_def storage_capacity_input_invest_rule_def
  storage_capacity_output_invest_rule_def max_capacity_invest_rule_def min_investstorage_rule_def
  storage_balance_rule_def no_bounds_def attr_of_def
  ebind_def number_def getitem_def py_last_def py_div_def var_at_def m_flow_def periodic_previous_def

lemma invest_flow_block_example_Some:
  "\<exists>b. invest_flow_block_example = Some b \<and> InvestmentFlow_invest_var b (''bel'', ''sto'') \<noteq> None
     \<and> InvestmentFlow_invest_var b (''sto'', ''bel'') \<noteq> None"
  by (simp add: invest_flow_block_example_def invest_eval_defs invest_example_model_def invest_flow_group_def
      invest_flow_example_def)

lemma invest_storage_example_run:
  "InvestmentStorage_create invest_example_model invest_flow_block_example (Some [invest_storage_example])
     = Inr (Some (the (projr (InvestmentStorage_create invest_example_model invest_flow_block_example
         (Some [invest_storage_example])))))"
proof -
  from invest_flow_block_example_Some obtain b d1 d2 where b: "invest_flow_block_example = Some b"
     "InvestmentFlow_invest_var b (''bel'', ''sto'') = Some d1"
     "InvestmentFlow_invest_var b (''sto'', ''bel'') = Some d2" by blast
  show ?thesis
    unfolding b(1)
    by (simp add: invest_eval_defs invest_example_model_def invest_storage_example_def b(2,3))
qed

subsection \<open>Investment costs\<close>

lemma Var_Inr:
  assumes "Var idx dmn bounds = Inr vs"
  shows "(\<forall>k\<in>set idx. \<exists>l u. bounds k = Inr (l, u) \<and> vs k = Some
            \<lparr> var_lb = l, var_ub = u, var_within = dmn, var_value = None, var_fixed = False \<rparr>)
       \<and> (\<forall>k. k \<notin> set idx \<longrightarrow> vs k = None)"
proof -
  let ?mk = "\<lambda>(l, u). \<lparr> var_lb = l, var_ub = u, var_within = dmn, var_value = None, var_fixed = False \<rparr>"
  let ?body = "\<lambda>k vs. ebind (bounds k) (\<lambda>(l, u). Inr (vs(k \<mapsto>
        \<lparr> var_lb = l, var_ub = u, var_within = dmn, var_value = None, var_fixed = False \<rparr>)))"
  have step: "\<exists>v. bounds k = Inr v \<and> (\<forall>j. s1 j =
               (if j = k then (case Some (?mk v) of None \<Rightarrow> s j | Some c \<Rightarrow> Some c) else s j))"
    if "?body k s = Inr s1" for k s s1
    using that by (auto simp: ebind_Inr_iff)
  from assms have run: "for_loop idx ?body Map.empty = Inr vs" by (simp add: Var_def)
  from for_loop_store [where get = "\<lambda>s. s" and g = "\<lambda>v. Some (?mk v)" and f = bounds and body = ?body,
      OF step run]
  have all: "\<forall>k\<in>set idx. \<exists>v. bounds k = Inr v"
    and res: "\<And>j. vs j = (if j \<in> set idx then Some (?mk (projr (bounds j))) else None)"
    by simp_all
  show ?thesis
  proof (intro conjI ballI allI impI)
    fix k assume k: "k \<in> set idx"
    with all obtain l u where "bounds k = Inr (l, u)" by fastforce
    with res [of k] k show "\<exists>l u. bounds k = Inr (l, u) \<and> vs k = Some
            \<lparr> var_lb = l, var_ub = u, var_within = dmn, var_value = None, var_fixed = False \<rparr>"
      by simp
  next
    fix k assume "k \<notin> set idx"
    with res [of k] show "vs k = None" by simp
  qed
qed














subsection \<open>Discrete flows\<close>

lemma minimum_flow_rule_Inr:
  "minimum_flow_rule m status ((i, j), t) = Inr c \<Longrightarrow>
     \<exists>f mn nv. flows m (i, j) = Some f \<and> seq_at (flow_min f) t = Inr mn \<and> nominal_value f = Some nv
       \<and> c = Rel_ge (Mul (Mul (V (Discrete_status i j t)) (Num mn)) (Num nv)) (V (flow i j t))"
  by (auto simp: minimum_flow_rule_def ebind_Inr_iff getitem_Inr number_Inr
      dest!: var_at_Inr m_flow_Inr)

lemma maximum_flow_rule_Inr:
  "maximum_flow_rule m status ((i, j), t) = Inr c \<Longrightarrow>
     \<exists>f mx nv. flows m (i, j) = Some f \<and> seq_at (flow_max f) t = Inr mx \<and> nominal_value f = Some nv
       \<and> c = Rel_le (Mul (Mul (V (Discrete_status i j t)) (Num mx)) (Num nv)) (V (flow i j t))"
  by (auto simp: maximum_flow_rule_def ebind_Inr_iff getitem_Inr number_Inr
      dest!: var_at_Inr m_flow_Inr)

lemma min_nonzero_Inr:
  "min_nonzero (i, j, f) = Inr b \<longleftrightarrow> (\<exists>x. seq_at (flow_min f) 0 = Inr x \<and> b = (x \<noteq> 0))"
  by (auto simp: min_nonzero_def ebind_Inr_iff)

lemma Discrete_create_coupling:
  assumes "Discrete_create m (Some grp) = Inr (Some blk)" and "t \<in> set (TIMESTEPS m)"
  shows "((i, j) \<in> set (Discrete_MIN_FLOWS blk) \<longleftrightarrow>
            (\<exists>f x. (i, j, f) \<in> set grp \<and> seq_at (flow_min f) 0 = Inr x \<and> x \<noteq> 0))
    \<and> ((i, j) \<in> set (Discrete_MIN_FLOWS blk) \<longrightarrow>
          (\<exists>f mn mx nv. flows m (i, j) = Some f \<and> seq_at (flow_min f) t = Inr mn
             \<and> seq_at (flow_max f) t = Inr mx \<and> nominal_value f = Some nv
             \<and> minimum_flow blk ((i, j), t) =
                 Some (Rel_ge (Mul (Mul (V (Discrete_status i j t)) (Num mn)) (Num nv)) (V (flow i j t)))
             \<and> maximum_flow blk ((i, j), t) =
                 Some (Rel_le (Mul (Mul (V (Discrete_status i j t)) (Num mx)) (Num nv)) (V (flow i j t)))))
    \<and> ((i, j) \<notin> set (Discrete_MIN_FLOWS blk) \<longrightarrow>
          minimum_flow blk ((i, j), t) = None \<and> maximum_flow blk ((i, j), t) = None)"
proof -
  from assms(1) obtain gmin status minc maxc where
    gmin: "efilter min_nonzero grp = Inr gmin"
    and minc: "Constraint (List.product (map (\<lambda>(i, o', f). (i, o')) gmin) (TIMESTEPS m))
                   (minimum_flow_rule m status) = Inr minc"
    and maxc: "Constraint (List.product (map (\<lambda>(i, o', f). (i, o')) gmin) (TIMESTEPS m))
                   (maximum_flow_rule m status) = Inr maxc"
    and blk: "Discrete_MIN_FLOWS blk = map (\<lambda>(i, o', f). (i, o')) gmin"
      "minimum_flow blk = minc" "maximum_flow blk = maxc"
    by (auto simp: Discrete_create_def ebind_Inr_iff)
  let ?MIN = "map (\<lambda>(i, o', f). (i, o')) gmin"
  from efilter_Inr [OF gmin] have set_gmin: "set gmin = {x \<in> set grp. min_nonzero x = Inr True}"
    by blast
  have memb: "(i, j) \<in> set ?MIN \<longleftrightarrow>
            (\<exists>f x. (i, j, f) \<in> set grp \<and> seq_at (flow_min f) 0 = Inr x \<and> x \<noteq> 0)"
  proof
    assume "(i, j) \<in> set ?MIN"
    then obtain f where "(i, j, f) \<in> set gmin" by auto
    with set_gmin have "(i, j, f) \<in> set grp" "min_nonzero (i, j, f) = Inr True" by auto
    then show "\<exists>f x. (i, j, f) \<in> set grp \<and> seq_at (flow_min f) 0 = Inr x \<and> x \<noteq> 0"
      unfolding min_nonzero_Inr by blast
  next
    assume "\<exists>f x. (i, j, f) \<in> set grp \<and> seq_at (flow_min f) 0 = Inr x \<and> x \<noteq> 0"
    then obtain f x where "(i, j, f) \<in> set grp" "seq_at (flow_min f) 0 = Inr x" "x \<noteq> 0" by blast
    then have "(i, j, f) \<in> set gmin" unfolding set_gmin by (simp add: min_nonzero_Inr)
    then show "(i, j) \<in> set ?MIN" by force
  qed
  have pos: "\<exists>f mn mx nv. flows m (i, j) = Some f \<and> seq_at (flow_min f) t = Inr mn
             \<and> seq_at (flow_max f) t = Inr mx \<and> nominal_value f = Some nv
             \<and> minc ((i, j), t) =
                 Some (Rel_ge (Mul (Mul (V (Discrete_status i j t)) (Num mn)) (Num nv)) (V (flow i j t)))
             \<and> maxc ((i, j), t) =
                 Some (Rel_le (Mul (Mul (V (Discrete_status i j t)) (Num mx)) (Num nv)) (V (flow i j t)))"
    if "(i, j) \<in> set ?MIN"
  proof -
    from that assms(2) have k: "((i, j), t) \<in> set (List.product ?MIN (TIMESTEPS m))" by simp
    from Constraint_Inr [OF minc] k obtain c1 where
      c1: "minimum_flow_rule m status ((i, j), t) = Inr c1" "minc ((i, j), t) = Some c1" by blast
    from Constraint_Inr [OF maxc] k obtain c2 where
      c2: "maximum_flow_rule m status ((i, j), t) = Inr c2" "maxc ((i, j), t) = Some c2" by blast
    from minimum_flow_rule_Inr [OF c1(1)] maximum_flow_rule_Inr [OF c2(1)] c1(2) c2(2)
    show ?thesis by force
  qed
  have neg: "minc ((i, j), t) = None \<and> maxc ((i, j), t) = None" if "(i, j) \<notin> set ?MIN"
  proof -
    from that have "((i, j), t) \<notin> set (List.product ?MIN (TIMESTEPS m))" by simp
    with Constraint_Inr [OF minc] Constraint_Inr [OF maxc] show ?thesis by blast
  qed
  from memb pos neg show ?thesis unfolding blk by blast
qed

lemmas discrete_eval_defs = Discrete_create_def Var_def Constraint_def min_nonzero_def
  has_start_costs_def minimum_flow_rule_def maximum_flow_rule_def no_bounds_def attr_of_def
  ebind_def number_def getitem_def var_at_def m_flow_def periodic_previous_def

lemma discrete_example_run:
  "Discrete_create discrete_example_model (Some discrete_example_group)
     = Inr (Some (the (projr (Discrete_create discrete_example_model (Some discrete_example_group)))))"
  by (simp add: discrete_eval_defs discrete_example_model_def discrete_example_group_def
      discrete_flow_example_def)

lemma efilter_map:
  "efilter p (map h xs) = map_sum id (map h) (efilter (\<lambda>x. p (h x)) xs)"
  by (induction xs) (auto split: sum.splits)

lemma efilter_cong: "(\<And>x. x \<in> set xs \<Longrightarrow> p x = q x) \<Longrightarrow> efilter p xs = efilter q xs"
  by (induction xs) (auto split: sum.splits)

lemma min_nonzero_without:
  "min_nonzero (case x of (i, j, f) \<Rightarrow> (i, j, without_start_costs_and_gradients f)) = min_nonzero x"
  by (cases x) (simp add: min_nonzero_def without_start_costs_and_gradients_def)

lemma has_start_costs_without:
  "has_start_costs (case x of (i, j, f) \<Rightarrow> (i, j, without_start_costs_and_gradients f))
     = map_sum id (\<lambda>b. False) (has_start_costs x)"
  by (cases x) (auto simp: has_start_costs_def without_start_costs_and_gradients_def ebind_def
      attr_of_def split: option.splits)

lemma minimum_flow_rule_without:
  "minimum_flow_rule (m\<lparr>flows := map_option without_start_costs_and_gradients \<circ> flows m\<rparr>) status
     = minimum_flow_rule m status"
  by (rule ext) (auto simp: minimum_flow_rule_def ebind_def getitem_def m_flow_def
      without_start_costs_and_gradients_def split: option.splits sum.splits)

lemma maximum_flow_rule_without:
  "maximum_flow_rule (m\<lparr>flows := map_option without_start_costs_and_gradients \<circ> flows m\<rparr>) status
     = maximum_flow_rule m status"
  by (rule ext) (auto simp: maximum_flow_rule_def ebind_def getitem_def m_flow_def
      without_start_costs_and_gradients_def split: option.splits sum.splits)

lemma efilter_never:
  "efilter (\<lambda>x. map_sum id (\<lambda>b. False) (p x)) xs = map_sum id (\<lambda>ys. []) (efilter p xs)"
  by (induction xs) (auto split: sum.splits)

lemma Discrete_create_without:
  "map_sum id (map_option (\<lambda>b. b\<lparr>STARTCOSTFLOWS := []\<rparr>)) (Discrete_create m (Some grp)) =
   map_sum id (map_option (\<lambda>b. b\<lparr>STARTCOSTFLOWS := []\<rparr>))
     (Discrete_create (m\<lparr>flows := map_option without_start_costs_and_gradients \<circ> flows m\<rparr>)
        (Some (map (\<lambda>(i, j, f). (i, j, without_start_costs_and_gradients f)) grp)))"
proof -
  let ?h = "\<lambda>(i, j, f). (i, j, without_start_costs_and_gradients f)"
  have a: "efilter min_nonzero (map ?h grp) = map_sum id (map ?h) (efilter min_nonzero grp)"
    by (simp add: efilter_map min_nonzero_without)
  have b: "efilter has_start_costs (map ?h grp) = map_sum id (\<lambda>ys. []) (efilter has_start_costs grp)"
  proof -
    have "efilter has_start_costs (map ?h grp)
        = map_sum id (map ?h) (efilter (\<lambda>x. has_start_costs (?h x)) grp)"
      by (rule efilter_map)
    also have "(\<lambda>x. has_start_costs (?h x)) = (\<lambda>x. map_sum id (\<lambda>b. False) (has_start_costs x))"
      by (rule ext) (rule has_start_costs_without)
    also have "efilter (\<lambda>x. map_sum id (\<lambda>b. False) (has_start_costs x)) grp
        = map_sum id (\<lambda>ys. []) (efilter has_start_costs grp)"
      by (rule efilter_never)
    finally show ?thesis by (cases "efilter has_start_costs grp") simp_all
  qed
  have c: "(\<lambda>(i, o', f). (i, o')) \<circ> ?h = (\<lambda>(i, o', f). (i, o'))"
    by (auto simp: fun_eq_iff)
  show ?thesis
    unfolding Discrete_create_def option.case a b minimum_flow_rule_without maximum_flow_rule_without
    by (cases "efilter min_nonzero grp"; cases "efilter has_start_costs grp")
       (simp_all add: ebind_def c split: sum.splits)
qed

text \<open>
  C2 as stated fails: a discrete flow with start costs and gradients is built without
  an error.
\<close>

theorem Discrete_unsupported_features_counterexample:
  "start_costs (the (discrete discrete_flow_example)) = Some 5
   \<and> seq_at (positive_gradient discrete_flow_example) 0 = Inr (Some (1 / 10))
   \<and> \<not> isl (Discrete_create discrete_example_model (Some discrete_example_group))"
proof -
  have "\<not> isl (Discrete_create discrete_example_model (Some discrete_example_group))"
    by (subst discrete_example_run) simp
  then show ?thesis by (simp add: discrete_flow_example_def)
qed

subsection \<open>Gradients of flows\<close>

lemmas flow_eval_defs = Flow_create_def set_gradient_bounds_def setub_def gradient_times_nominal_def
  constraint_add_def summed_times_nominal_def flow_summed_max_rule_def flow_summed_min_rule_def
  positive_gradient_flow_rule_def negative_gradient_flow_rule_def gradient_set_def read_local_def
  summed_flow_def ebind_def number_def getitem_def var_at_def m_flow_def periodic_previous_def

lemma gradient_example_run:
  "Flow_create gradient_example_model (Some gradient_example_group)
    = Inr (fst (projr (Flow_create gradient_example_model (Some gradient_example_group))),
           Some (the (snd (projr (Flow_create gradient_example_model (Some gradient_example_group))))))"
  by (simp add: flow_eval_defs gradient_example_model_def gradient_example_group_def
      gradient_flow_example_def free_gradient_var_def del: not_None_eq)

text \<open>
  C4 fails on the code. For the edge of the example, whose negative gradient is set, the
  constraint stored for timestep 1 is \<^verbatim>\<open>flow[2] - flow[0] <= positive_flow_gradient[1]\<close>: the
  left-hand side reads the stale locals \<^verbatim>\<open>i, o, t\<close> of \<^verbatim>\<open>_create\<close> and is not the decrease
  of the flow, and the bound is the variable of the positive gradient. A flow that drops
  from 10 to 0 satisfies it although the variable of the negative gradient is 0. The upper
  bound of the variable of the negative gradient is set as the claim says (0.1 * 10 = 1).
\<close>

theorem negative_gradient_constraint_as_built:
  "\<not> isl (Flow_create gradient_example_model (Some gradient_example_group))
   \<and> negative_gradient_constr
       (the (snd (projr (Flow_create gradient_example_model (Some gradient_example_group)))))
       (''src'', ''bus'', 1)
     = Some (Rel_le (Sub (V (flow ''src'' ''bus'' 2)) (V (flow ''src'' ''bus'' 0)))
                    (V (positive_flow_gradient ''src'' ''bus'' 1)))
   \<and> holds ramp_down_valuation (Rel_le (Sub (V (flow ''src'' ''bus'' 2)) (V (flow ''src'' ''bus'' 0)))
                    (V (positive_flow_gradient ''src'' ''bus'' 1)))
   \<and> \<not> (ramp_down_valuation (flow ''src'' ''bus'' 0) - ramp_down_valuation (flow ''src'' ''bus'' 1)
          \<le> ramp_down_valuation (negative_flow_gradient ''src'' ''bus'' 1))
   \<and> map_option var_ub (negative_flow_gradient_var
         (fst (projr (Flow_create gradient_example_model (Some gradient_example_group))))
         (''src'', ''bus'', 1)) = Some (Some 1)"
proof -
  have e: "map_option var_ub (negative_flow_gradient_var
         (fst (projr (Flow_create gradient_example_model (Some gradient_example_group))))
         (''src'', ''bus'', 1)) = Some (Some 1)"
    by (simp add: flow_eval_defs gradient_example_model_def gradient_example_group_def
      gradient_flow_example_def free_gradient_var_def del: not_None_eq)
  have a: "\<not> isl (Flow_create gradient_example_model (Some gradient_example_group))"
    by (subst gradient_example_run) simp
  have b: "negative_gradient_constr
       (the (snd (projr (Flow_create gradient_example_model (Some gradient_example_group)))))
       (''src'', ''bus'', 1)
     = Some (Rel_le (Sub (V (flow ''src'' ''bus'' 2)) (V (flow ''src'' ''bus'' 0)))
                    (V (positive_flow_gradient ''src'' ''bus'' 1)))"
    by (simp add: flow_eval_defs gradient_example_model_def gradient_example_group_def
      gradient_flow_example_def free_gradient_var_def del: not_None_eq)
  have c: "holds ramp_down_valuation (Rel_le (Sub (V (flow ''src'' ''bus'' 2)) (V (flow ''src'' ''bus'' 0)))
                    (V (positive_flow_gradient ''src'' ''bus'' 1)))"
    by (simp add: ramp_down_valuation_def)
  have d: "\<not> (ramp_down_valuation (flow ''src'' ''bus'' 0) - ramp_down_valuation (flow ''src'' ''bus'' 1)
          \<le> ramp_down_valuation (negative_flow_gradient ''src'' ''bus'' 1))"
    by (simp add: ramp_down_valuation_def)
  from a b c d e show ?thesis by blast
qed

subsection \<open>Electrical lines\<close>

lemmas electrical_eval_defs = ElectricalLineBlock_create_def voltage_angle_relation_def
  voltage_angle_relation_step_def choose_slack_def electrical_buses_def voltage_angle_Var_def
  Transformer_input_def Transformer_output_def Set_first_def logging_info_def call_format_def
  slack_of_def try_except_def reciprocal_def constraint_add_def set_slack_def py_in_def is_True_def
  ElectricalBus_init_def kwargs_get_def
  ebind_def getitem_def var_at_def m_flow_def periodic_previous_def

text \<open>
  C1 fails on the code. The line of the example ends in the slack bus, and the constraint
  stored for it is the relation to the voltage angles,
  \<^verbatim>\<open>flow == 1/reactance * (angle[b0] - angle[b1])\<close>, not \<^verbatim>\<open>flow == 0\<close>: what the branch for the
  slack bus assigns is overwritten by the \<^verbatim>\<open>try\<close> block that follows it. A valuation with
  flow 1 satisfies the stored constraint. The second constraint, which equates the two
  directional flows, is there.
\<close>

theorem slack_output_line_as_built:
  "is_True (slack bus_b1_slack)
   \<and> \<not> isl (ElectricalLineBlock_create (electrical_example_model bus_b1_slack) (Some [line_example]))
   \<and> electrical_flow (the (snd (projr
        (ElectricalLineBlock_create (electrical_example_model bus_b1_slack) (Some [line_example])))))
        (line_example, 0)
     = Some (Rel_eq (V (flow ''line'' ''b1'' 0))
                    (Mul (Num 1) (Sub (V (voltage_angle ''b0'' 0)) (V (voltage_angle ''b1'' 0)))))
   \<and> equate_electrical_flows (the (snd (projr
        (ElectricalLineBlock_create (electrical_example_model bus_b1_slack) (Some [line_example])))))
        (line_example, 0)
     = Some (Rel_eq (V (flow ''line'' ''b1'' 0)) (V (flow ''b0'' ''line'' 0)))
   \<and> holds angle_valuation (Rel_eq (V (flow ''line'' ''b1'' 0))
                    (Mul (Num 1) (Sub (V (voltage_angle ''b0'' 0)) (V (voltage_angle ''b1'' 0)))))
   \<and> angle_valuation (flow ''line'' ''b1'' 0) \<noteq> 0"
  by (simp add: electrical_eval_defs electrical_example_model_def bus_b0_def bus_b1_slack_def
      line_example_def angle_valuation_def)

lemma choose_slack_fails:
  "\<not> py_in (PBool True) (map slack buses) \<Longrightarrow> isl (choose_slack m buses)"
  by (cases buses) (simp_all add: choose_slack_def Set_first_def logging_info_def call_format_def ebind_def)

lemma no_slack_bus_never_builds:
  assumes "\<not> py_in (PBool True) (map slack (electrical_buses m))"
  shows "isl (ElectricalLineBlock_create m (Some grp))"
  using choose_slack_fails [OF assms, of m]
  by (auto simp: ElectricalLineBlock_create_def ebind_def split: sum.splits)

text \<open>
  C5 fails on the code. With two electrical buses of which none is slack, the build stops
  with an AttributeError: \<^verbatim>\<open>logging.info(...)\<close> returns \<^verbatim>\<open>None\<close>, and \<^verbatim>\<open>.format\<close> is called on
  that result, before \<^verbatim>\<open>bus.slack = True\<close> is reached. No bus is designated and no block is
  built; by the lemma above this is so for every topology without a slack bus.
\<close>

theorem no_slack_bus_build_as_built:
  "\<not> py_in (PBool True) (map slack (electrical_buses (electrical_example_model bus_b1)))
   \<and> ElectricalLineBlock_create (electrical_example_model bus_b1) (Some [line_example])
     = Inl AttributeError"
  by (simp add: electrical_eval_defs electrical_example_model_def bus_b0_def bus_b1_def
      line_example_def)

section \<open>Builds that complete\<close>

subsection \<open>When loops, comprehensions and components succeed\<close>

lemma for_loop_total:
  assumes inv: "I s"
    and step: "\<And>x s. x \<in> set xs \<Longrightarrow> I s \<Longrightarrow> \<exists>s'. body x s = Inr s' \<and> I s'"
  shows "\<exists>s'. for_loop xs body s = Inr s' \<and> I s'"
proof -
  have "set ys \<subseteq> set xs \<Longrightarrow> I s0 \<Longrightarrow> \<exists>s'. for_loop ys body s0 = Inr s' \<and> I s'" for ys s0
  proof (induction ys arbitrary: s0)
    case Nil
    then show ?case by simp
  next
    case (Cons y ys)
    from Cons.prems(1) have y: "y \<in> set xs" and sub: "set ys \<subseteq> set xs" by simp_all
    from step [OF y Cons.prems(2)] obtain s1 where s1: "body y s0 = Inr s1" "I s1" by blast
    from Cons.IH [OF sub s1(2)] obtain s' where "for_loop ys body s1 = Inr s'" "I s'" by blast
    with s1(1) show ?case by simp
  qed
  from this [of xs s] inv show ?thesis by simp
qed

lemma emap_total:
  "(\<And>x. x \<in> set xs \<Longrightarrow> \<exists>y. f x = Inr y) \<Longrightarrow> \<exists>ys. emap f xs = Inr ys"
proof (induction xs)
  case Nil
  then show ?case by simp
next
  case (Cons x xs)
  from Cons.prems [of x] obtain y where y: "f x = Inr y" by auto
  from Cons.IH Cons.prems obtain ys where "emap f xs = Inr ys" by auto
  with y show ?case by simp
qed

lemma efilter_total:
  "(\<And>x. x \<in> set xs \<Longrightarrow> \<exists>b. p x = Inr b) \<Longrightarrow> \<exists>ys. efilter p xs = Inr ys"
proof (induction xs)
  case Nil
  then show ?case by simp
next
  case (Cons x xs)
  from Cons.prems [of x] obtain b where b: "p x = Inr b" by auto
  from Cons.IH Cons.prems obtain ys where "efilter p xs = Inr ys" by auto
  with b show ?case by simp
qed

lemma Constraint_total:
  assumes "\<And>k. k \<in> set idx \<Longrightarrow> \<exists>c. rule k = Inr c"
  shows "\<exists>cs. Constraint idx rule = Inr cs"
proof -
  have "\<exists>s'. for_loop idx (\<lambda>k cs. ebind (rule k) (\<lambda>c. Inr (cs(k \<mapsto> c)))) Map.empty = Inr s' \<and> True"
  proof (rule for_loop_total)
    fix k and s :: "'a \<rightharpoonup> 'b"
    assume "k \<in> set idx"
    from assms [OF this] obtain c where "rule k = Inr c" by blast
    then show "\<exists>s'. ebind (rule k) (\<lambda>c. Inr (s(k \<mapsto> c))) = Inr s' \<and> True"
      by (simp add: ebind_def)
  qed simp
  then show ?thesis by (simp add: Constraint_def)
qed

lemma Var_total:
  assumes "\<And>k. k \<in> set idx \<Longrightarrow> \<exists>b. bounds k = Inr b"
  shows "\<exists>vs. Var idx dmn bounds = Inr vs"
proof -
  have "\<exists>s'. for_loop idx (\<lambda>k vs. ebind (bounds k) (\<lambda>(l, u). Inr (vs(k \<mapsto>
        \<lparr> var_lb = l, var_ub = u, var_within = dmn, var_value = None, var_fixed = False \<rparr>))))
       Map.empty = Inr s' \<and> True"
  proof (rule for_loop_total)
    fix k and s :: "'a \<rightharpoonup> 'b var_data"
    assume "k \<in> set idx"
    from assms [OF this] obtain l u where "bounds k = Inr (l, u)" by fastforce
    then show "\<exists>s'. ebind (bounds k) (\<lambda>(l, u). Inr (s(k \<mapsto>
        \<lparr> var_lb = l, var_ub = u, var_within = dmn, var_value = None, var_fixed = False \<rparr>))) = Inr s' \<and> True"
      by (simp add: ebind_def)
  qed simp
  then show ?thesis by (simp add: Var_def)
qed

lemma m_flow_total:
  "(i, j) \<in> set (FLOWS m) \<Longrightarrow> t \<in> set (TIMESTEPS m) \<Longrightarrow> m_flow m i j t = Inr (V (flow i j t))"
  by (simp add: m_flow_def)





subsection \<open>The Storage block\<close>

lemma storage_balance_rule_total:
  assumes cap: "\<And>t'. t' \<in> set (TIMESTEPS m) \<Longrightarrow> \<exists>e. cap (n, t') = Inr e"
    and t: "t \<in> set (TIMESTEPS m)"
    and prev: "\<exists>p. previous_timesteps m t = Some p \<and> p \<in> set (TIMESTEPS m)"
    and loss: "\<exists>x. seq_at (capacity_loss n) t = Inr x"
    and inp: "\<exists>i. INPUTS m (label n) = Some i \<and> (i, label n) \<in> set (FLOWS m)"
    and ein: "\<exists>x. seq_at (inflow_conversion_factor n) t = Inr x"
    and outp: "\<exists>j. OUTPUTS m (label n) = Some j \<and> (label n, j) \<in> set (FLOWS m)"
    and eout: "\<exists>x. seq_at (outflow_conversion_factor n) t = Inr x \<and> x \<noteq> 0"
  shows "\<exists>c. storage_balance_rule m cap (n, t) = Inr c"
proof -
  from prev obtain p where p: "previous_timesteps m t = Some p" "p \<in> set (TIMESTEPS m)" by blast
  from cap [OF t] obtain c_t where ct: "cap (n, t) = Inr c_t" by blast
  from cap [OF p(2)] obtain c_p where cp: "cap (n, p) = Inr c_p" by blast
  from loss obtain l where l: "seq_at (capacity_loss n) t = Inr l" by blast
  from inp obtain i where i: "INPUTS m (label n) = Some i" "(i, label n) \<in> set (FLOWS m)" by blast
  from ein obtain a where a: "seq_at (inflow_conversion_factor n) t = Inr a" by blast
  from outp obtain j where j: "OUTPUTS m (label n) = Some j" "(label n, j) \<in> set (FLOWS m)" by blast
  from eout obtain b where b: "seq_at (outflow_conversion_factor n) t = Inr b" "b \<noteq> 0" by blast
  show ?thesis
    by (simp add: storage_balance_rule_def ebind_def getitem_def py_div_def
        ct p cp l i a j b m_flow_total [OF i(2) t] m_flow_total [OF j(2) t])
qed

lemma Storage_create_completes:
  assumes wf: "\<forall>n\<in>set grp.
        nominal_capacity n \<noteq> None
      \<and> (\<exists>i. INPUTS m (label n) = Some i \<and> (i, label n) \<in> set (FLOWS m))
      \<and> (\<exists>j. OUTPUTS m (label n) = Some j \<and> (label n, j) \<in> set (FLOWS m))
      \<and> (initial_capacity n \<noteq> None \<longrightarrow>
            timesteps m \<noteq> [] \<and> last (timesteps m) \<in> set (TIMESTEPS m))
      \<and> (\<forall>t\<in>set (TIMESTEPS m).
            (\<exists>p. previous_timesteps m t = Some p \<and> p \<in> set (TIMESTEPS m))
          \<and> (\<exists>x. seq_at (capacity_min n) t = Inr x)
          \<and> (\<exists>x. seq_at (capacity_max n) t = Inr x)
          \<and> (\<exists>x. seq_at (capacity_loss n) t = Inr x)
          \<and> (\<exists>x. seq_at (inflow_conversion_factor n) t = Inr x)
          \<and> (\<exists>x. seq_at (outflow_conversion_factor n) t = Inr x \<and> x \<noteq> 0))"
  shows "\<exists>blk. Storage_create m (Some grp) = Inr (Some blk)"
proof -
  let ?idx = "List.product grp (TIMESTEPS m)"
  have "\<exists>vs. Var ?idx Reals storage_capacity_bound_rule = Inr vs"
  proof (rule Var_total)
    fix k assume k: "k \<in> set ?idx"
    obtain n t where kk: "k = (n, t)" by (cases k)
    with k have nt: "n \<in> set grp" "t \<in> set (TIMESTEPS m)" by simp_all
    with wf obtain nc a b where "nominal_capacity n = Some nc"
      "seq_at (capacity_min n) t = Inr a" "seq_at (capacity_max n) t = Inr b" by fastforce
    then show "\<exists>b. storage_capacity_bound_rule k = Inr b"
      unfolding kk by (simp add: storage_capacity_bound_rule_def ebind_def number_def)
  qed
  then obtain cap0 where cap0: "Var ?idx Reals storage_capacity_bound_rule = Inr cap0" by blast
  let ?I = "\<lambda>cap :: Storage \<times> nat \<rightharpoonup> real var_data. \<forall>k\<in>set ?idx. cap k \<noteq> None"
  from Var_Inr [OF cap0] have I0: "?I cap0" by fastforce
  have "\<exists>cap. for_loop grp (set_initial_capacity m) cap0 = Inr cap \<and> ?I cap"
  proof (rule for_loop_total [where I = ?I, OF I0])
    fix n and s :: "Storage \<times> nat \<rightharpoonup> real var_data"
    assume n: "n \<in> set grp" and I: "?I s"
    show "\<exists>s'. set_initial_capacity m n s = Inr s' \<and> ?I s'"
    proof (cases "initial_capacity n")
      case None
      with I show ?thesis by (simp add: set_initial_capacity_def)
    next
      case (Some ic)
      with wf n obtain nc where nc: "nominal_capacity n = Some nc"
        and ts: "timesteps m \<noteq> []" "last (timesteps m) \<in> set (TIMESTEPS m)" by fastforce
      from n ts(2) I obtain d where d: "s (n, last (timesteps m)) = Some d" by fastforce
      have "set_initial_capacity m n s
          = Inr (s((n, last (timesteps m)) \<mapsto> d\<lparr>var_value := Some (ic * nc), var_fixed := True\<rparr>))"
        by (simp add: set_initial_capacity_def Some nc ts(1) d ebind_def number_def py_last_def
            set_and_fix_def)
      with I show ?thesis by simp
    qed
  qed
  then obtain cap where cap: "for_loop grp (set_initial_capacity m) cap0 = Inr cap" and I: "?I cap"
    by blast
  let ?at = "\<lambda>(n, t). var_at cap (n, t) (Storage_capacity (label n) t)"
  have "\<exists>cs. Constraint ?idx (storage_balance_rule m ?at) = Inr cs"
  proof (rule Constraint_total)
    fix k assume k: "k \<in> set ?idx"
    obtain n t where kk: "k = (n, t)" by (cases k)
    with k have nt: "n \<in> set grp" "t \<in> set (TIMESTEPS m)" by simp_all
    have c: "\<exists>e. ?at (n, t') = Inr e" if "t' \<in> set (TIMESTEPS m)" for t'
    proof -
      from that nt(1) I obtain d where "cap (n, t') = Some d" by fastforce
      then show ?thesis by (simp add: var_at_def)
    qed
    from wf nt show "\<exists>c. storage_balance_rule m ?at k = Inr c"
      unfolding kk by (intro storage_balance_rule_total c) auto
  qed
  then obtain bal where "Constraint ?idx (storage_balance_rule m ?at) = Inr bal" by blast
  with cap0 cap show ?thesis by (simp add: Storage_create_def ebind_def)
qed

text \<open>
  C6. Every Storage block that is built has, for every storage \<open>n\<close> of the group and every
  timestep \<open>t\<close>, a balance constraint \<open>e == 0\<close> whose left-hand side evaluates, under
  every valuation of the variables, to
  \<^verbatim>\<open>capacity[t] - capacity[previous(t)]*(1-capacity_loss[t]) - inflow[t]*inflow_eff[t]*dt + outflow[t]/outflow_eff[t]*dt\<close>,
  where \<open>previous(t)\<close> is the model's previous-timestep mapping (the last timestep for the
  first one, when that mapping is the periodic one). When \<^verbatim>\<open>initial_capacity\<close> is set, the
  capacity variable at the last timestep has the value \<^verbatim>\<open>initial_capacity * nominal_capacity\<close>
  and is fixed. The block is built whenever every storage has a nominal capacity, an input
  and an output flow in the model, attributes defined at every timestep, a nonzero
  outflow efficiency, and the previous timestep of every timestep is a timestep.
\<close>

theorem Storage_balance_and_initial_capacity:
  "(\<forall>blk. Storage_create m (Some grp) = Inr (Some blk) \<longrightarrow>
     (\<forall>n\<in>set grp. \<forall>t\<in>set (TIMESTEPS m).
       (\<exists>e p i j loss eta_in eta_out.
          Storage_balance blk (n, t) = Some (Rel_eq e (Num 0))
        \<and> previous_timesteps m t = Some p \<and> INPUTS m (label n) = Some i \<and> OUTPUTS m (label n) = Some j
        \<and> seq_at (capacity_loss n) t = Inr loss
        \<and> seq_at (inflow_conversion_factor n) t = Inr eta_in
        \<and> seq_at (outflow_conversion_factor n) t = Inr eta_out \<and> eta_out \<noteq> 0
        \<and> (\<forall>v. eval v e = v (Storage_capacity (label n) t) - v (Storage_capacity (label n) p) * (1 - loss)
                - v (flow i (label n) t) * eta_in * timeincrement m
                + v (flow (label n) j t) / eta_out * timeincrement m)
        \<and> (previous_timesteps m = periodic_previous (TIMESTEPS m) \<and> t = hd (TIMESTEPS m)
              \<longrightarrow> p = last (TIMESTEPS m)))
     \<and> (\<forall>ic. initial_capacity n = Some ic \<longrightarrow>
          (\<exists>nc d. timesteps m \<noteq> [] \<and> nominal_capacity n = Some nc
             \<and> Storage_capacity_var blk (n, last (timesteps m)) = Some d
             \<and> var_fixed d \<and> var_value d = Some (ic * nc)))))
 \<and> ((\<forall>n\<in>set grp.
        nominal_capacity n \<noteq> None
      \<and> (\<exists>i. INPUTS m (label n) = Some i \<and> (i, label n) \<in> set (FLOWS m))
      \<and> (\<exists>j. OUTPUTS m (label n) = Some j \<and> (label n, j) \<in> set (FLOWS m))
      \<and> (initial_capacity n \<noteq> None \<longrightarrow>
            timesteps m \<noteq> [] \<and> last (timesteps m) \<in> set (TIMESTEPS m))
      \<and> (\<forall>t\<in>set (TIMESTEPS m).
            (\<exists>p. previous_timesteps m t = Some p \<and> p \<in> set (TIMESTEPS m))
          \<and> (\<exists>x. seq_at (capacity_min n) t = Inr x)
          \<and> (\<exists>x. seq_at (capacity_max n) t = Inr x)
          \<and> (\<exists>x. seq_at (capacity_loss n) t = Inr x)
          \<and> (\<exists>x. seq_at (inflow_conversion_factor n) t = Inr x)
          \<and> (\<exists>x. seq_at (outflow_conversion_factor n) t = Inr x \<and> x \<noteq> 0)))
    \<longrightarrow> (\<exists>blk. Storage_create m (Some grp) = Inr (Some blk)))"
  (is "?completed \<and> ?completes")
proof (rule conjI)
  show ?completed
    by (intro allI impI ballI) (rule Storage_create_balance; assumption)
  show ?completes
    by (intro impI) (rule Storage_create_completes, assumption)
qed

theorem Storage_balance_and_initial_capacity_witness:
  "\<exists>blk. Storage_create storage_example_model (Some [storage_example]) = Inr (Some blk)
   \<and> (\<exists>e. Storage_balance blk (storage_example, 0) = Some (Rel_eq e (Num 0))
      \<and> (\<forall>v. eval v e = v (Storage_capacity ''sto'' 0) - v (Storage_capacity ''sto'' 1) * (1 - 0)
            - v (flow ''bel'' ''sto'' 0) * 1 * 1 + v (flow ''sto'' ''bel'' 0) / 1 * 1))
   \<and> (\<exists>d. Storage_capacity_var blk (storage_example, 1) = Some d \<and> var_fixed d
          \<and> var_value d = Some 50)"
proof -
  note inst = Storage_balance_and_initial_capacity [of storage_example_model "[storage_example]"]
  have facts: "previous_timesteps storage_example_model 0 = Some 1"
    "INPUTS storage_example_model ''sto'' = Some ''bel''"
    "OUTPUTS storage_example_model ''sto'' = Some ''bel''"
    "label storage_example = ''sto''" "timeincrement storage_example_model = 1"
    "capacity_loss storage_example = Repeated 0"
    "inflow_conversion_factor storage_example = Repeated 1"
    "outflow_conversion_factor storage_example = Repeated 1"
    "initial_capacity storage_example = Some (1 / 2)"
    "nominal_capacity storage_example = Some 100"
    "last (timesteps storage_example_model) = 1"
    by (simp_all add: storage_example_model_def storage_example_def periodic_previous_def)
  have wf: "\<forall>n\<in>set [storage_example].
        nominal_capacity n \<noteq> None
      \<and> (\<exists>i. INPUTS storage_example_model (label n) = Some i
             \<and> (i, label n) \<in> set (FLOWS storage_example_model))
      \<and> (\<exists>j. OUTPUTS storage_example_model (label n) = Some j
             \<and> (label n, j) \<in> set (FLOWS storage_example_model))
      \<and> (initial_capacity n \<noteq> None \<longrightarrow>
            timesteps storage_example_model \<noteq> []
          \<and> last (timesteps storage_example_model) \<in> set (TIMESTEPS storage_example_model))
      \<and> (\<forall>t\<in>set (TIMESTEPS storage_example_model).
            (\<exists>p. previous_timesteps storage_example_model t = Some p
                \<and> p \<in> set (TIMESTEPS storage_example_model))
          \<and> (\<exists>x. seq_at (capacity_min n) t = Inr x)
          \<and> (\<exists>x. seq_at (capacity_max n) t = Inr x)
          \<and> (\<exists>x. seq_at (capacity_loss n) t = Inr x)
          \<and> (\<exists>x. seq_at (inflow_conversion_factor n) t = Inr x)
          \<and> (\<exists>x. seq_at (outflow_conversion_factor n) t = Inr x \<and> x \<noteq> 0))"
    by (simp add: storage_example_model_def storage_example_def periodic_previous_def)
  from inst [THEN conjunct2] wf
  have "\<exists>blk. Storage_create storage_example_model (Some [storage_example]) = Inr (Some blk)"
    by (rule mp)
  then obtain blk where
    run: "Storage_create storage_example_model (Some [storage_example]) = Inr (Some blk)" ..
  have n: "storage_example \<in> set [storage_example]" by simp
  have t: "0 \<in> set (TIMESTEPS storage_example_model)" by (simp add: storage_example_model_def)
  note both = inst [THEN conjunct1, rule_format, OF run n t]
  from both have a: "\<exists>e. Storage_balance blk (storage_example, 0) = Some (Rel_eq e (Num 0))
      \<and> (\<forall>v. eval v e = v (Storage_capacity ''sto'' 0) - v (Storage_capacity ''sto'' 1) * (1 - 0)
            - v (flow ''bel'' ''sto'' 0) * 1 * 1 + v (flow ''sto'' ''bel'' 0) / 1 * 1)"
    unfolding facts by auto
  from both facts(9) obtain nc d where "nominal_capacity storage_example = Some nc"
    and "Storage_capacity_var blk (storage_example, last (timesteps storage_example_model)) = Some d"
    and "var_fixed d" and "var_value d = Some (1 / 2 * nc)"
    by blast
  then have b: "\<exists>d. Storage_capacity_var blk (storage_example, 1) = Some d
       \<and> var_fixed d \<and> var_value d = Some 50"
    unfolding facts by simp
  from run a b show ?thesis by blast
qed

subsection \<open>The InvestmentStorage block\<close>

lemma InvestmentStorage_create_completes:
  assumes wf: "\<forall>n\<in>set grp.
        storage_investment n \<noteq> None
      \<and> (\<exists>i fb. INPUTS m (label n) = Some i \<and> (i, label n) \<in> set (FLOWS m)
             \<and> ifb = Some fb \<and> InvestmentFlow_invest_var fb (i, label n) \<noteq> None)
      \<and> (\<exists>j fb. OUTPUTS m (label n) = Some j \<and> (label n, j) \<in> set (FLOWS m)
             \<and> ifb = Some fb \<and> InvestmentFlow_invest_var fb (label n, j) \<noteq> None)
      \<and> (initial_capacity n \<noteq> None \<longrightarrow> TIMESTEPS m \<noteq> [])
      \<and> (\<forall>t\<in>set (TIMESTEPS m).
            (\<exists>p. previous_timesteps m t = Some p \<and> p \<in> set (TIMESTEPS m))
          \<and> (\<exists>x. seq_at (capacity_min n) t = Inr x)
          \<and> (\<exists>x. seq_at (capacity_max n) t = Inr x)
          \<and> (\<exists>x. seq_at (capacity_loss n) t = Inr x)
          \<and> (\<exists>x. seq_at (inflow_conversion_factor n) t = Inr x)
          \<and> (\<exists>x. seq_at (outflow_conversion_factor n) t = Inr x \<and> x \<noteq> 0))"
  shows "\<exists>blk. InvestmentStorage_create m ifb (Some grp) = Inr (Some blk)"
proof -
  let ?idx = "List.product grp (TIMESTEPS m)"
  have "\<exists>ys. efilter (capacity_min_sum_positive m) grp = Inr ys"
  proof (rule efilter_total)
    fix n assume n: "n \<in> set grp"
    have "\<exists>xs. emap (seq_at (capacity_min n)) (TIMESTEPS m) = Inr xs"
      by (rule emap_total) (use wf n in blast)
    then show "\<exists>b. capacity_min_sum_positive m n = Inr b"
      by (auto simp: capacity_min_sum_positive_def ebind_def)
  qed
  then obtain mins where mins: "efilter (capacity_min_sum_positive m) grp = Inr mins" by blast
  from efilter_Inr [OF mins] have mins_sub: "set mins \<subseteq> set grp" by blast
  have "\<exists>vs. Var ?idx NonNegativeReals no_bounds = Inr vs"
    by (rule Var_total) (simp add: no_bounds_def)
  then obtain cap where cap: "Var ?idx NonNegativeReals no_bounds = Inr cap" by blast
  from Var_Inr [OF cap] have capd: "\<And>n t. n \<in> set grp \<Longrightarrow> t \<in> set (TIMESTEPS m) \<Longrightarrow>
      invest_capacity_at cap (n, t) = Inr (V (InvestmentStorage_capacity (label n) t))"
    by (fastforce simp: invest_capacity_at_def var_at_def)
  have "\<exists>vs. Var grp NonNegativeReals storage_investvar_bound_rule = Inr vs"
  proof (rule Var_total)
    fix n assume "n \<in> set grp"
    with wf obtain a where "storage_investment n = Some a" by fastforce
    then show "\<exists>b. storage_investvar_bound_rule n = Inr b"
      by (simp add: storage_investvar_bound_rule_def ebind_def attr_of_def)
  qed
  then obtain invest where invest: "Var grp NonNegativeReals storage_investvar_bound_rule = Inr invest"
    by blast
  from Var_Inr [OF invest] have invd: "\<And>n. n \<in> set grp \<Longrightarrow>
      var_at invest n (InvestmentStorage_invest (label n)) = Inr (V (InvestmentStorage_invest (label n)))"
    by (fastforce simp: var_at_def)
  have "\<exists>cs. Constraint ?idx (storage_balance_rule m (invest_capacity_at cap)) = Inr cs"
  proof (rule Constraint_total)
    fix k assume k: "k \<in> set ?idx"
    obtain n t where kk: "k = (n, t)" by (cases k)
    with k have nt: "n \<in> set grp" "t \<in> set (TIMESTEPS m)" by simp_all
    have c: "\<exists>e. invest_capacity_at cap (n, t') = Inr e" if "t' \<in> set (TIMESTEPS m)" for t'
      using capd [OF nt(1) that] by simp
    from wf nt show "\<exists>c. storage_balance_rule m (invest_capacity_at cap) k = Inr c"
      unfolding kk by (intro storage_balance_rule_total c) auto
  qed
  then obtain bal where
    bal: "Constraint ?idx (storage_balance_rule m (invest_capacity_at cap)) = Inr bal" by blast
  have "\<exists>cs. Constraint [n \<leftarrow> grp. initial_capacity n \<noteq> None]
                   (initial_capacity_invest_rule m cap invest) = Inr cs"
  proof (rule Constraint_total)
    fix n assume "n \<in> set [n \<leftarrow> grp. initial_capacity n \<noteq> None]"
    then have n: "n \<in> set grp" and "initial_capacity n \<noteq> None" by simp_all
    with wf obtain ic where ic: "initial_capacity n = Some ic" and ts: "TIMESTEPS m \<noteq> []" by fastforce
    from ts have "last (TIMESTEPS m) \<in> set (TIMESTEPS m)" by simp
    from capd [OF n this] invd [OF n] ic ts
    show "\<exists>c. initial_capacity_invest_rule m cap invest n = Inr c"
      by (simp add: initial_capacity_invest_rule_def ebind_def py_last_def number_def)
  qed
  then obtain ini where ini: "Constraint [n \<leftarrow> grp. initial_capacity n \<noteq> None]
                   (initial_capacity_invest_rule m cap invest) = Inr ini" by blast
  have "\<exists>cs. Constraint grp (storage_capacity_input_invest_rule m ifb invest) = Inr cs"
  proof (rule Constraint_total)
    fix n assume n: "n \<in> set grp"
    with wf obtain i fb d where "INPUTS m (label n) = Some i" "ifb = Some fb"
      "InvestmentFlow_invest_var fb (i, label n) = Some d" by fastforce
    with invd [OF n] show "\<exists>c. storage_capacity_input_invest_rule m ifb invest n = Inr c"
      by (simp add: storage_capacity_input_invest_rule_def investflow_invest_at_def ebind_def
          attr_of_def getitem_def var_at_def)
  qed
  then obtain inp where inp: "Constraint grp (storage_capacity_input_invest_rule m ifb invest) = Inr inp"
    by blast
  have "\<exists>cs. Constraint grp (storage_capacity_output_invest_rule m ifb invest) = Inr cs"
  proof (rule Constraint_total)
    fix n assume n: "n \<in> set grp"
    with wf obtain j fb d where "OUTPUTS m (label n) = Some j" "ifb = Some fb"
      "InvestmentFlow_invest_var fb (label n, j) = Some d" by fastforce
    with invd [OF n] show "\<exists>c. storage_capacity_output_invest_rule m ifb invest n = Inr c"
      by (simp add: storage_capacity_output_invest_rule_def investflow_invest_at_def ebind_def
          attr_of_def getitem_def var_at_def)
  qed
  then obtain outp where
    outp: "Constraint grp (storage_capacity_output_invest_rule m ifb invest) = Inr outp" by blast
  have "\<exists>cs. Constraint ?idx (max_capacity_invest_rule cap invest) = Inr cs"
  proof (rule Constraint_total)
    fix k assume k: "k \<in> set ?idx"
    obtain n t where kk: "k = (n, t)" by (cases k)
    with k have nt: "n \<in> set grp" "t \<in> set (TIMESTEPS m)" by simp_all
    with wf obtain x where "seq_at (capacity_max n) t = Inr x" by fastforce
    with capd [OF nt] invd [OF nt(1)] show "\<exists>c. max_capacity_invest_rule cap invest k = Inr c"
      unfolding kk by (simp add: max_capacity_invest_rule_def ebind_def)
  qed
  then obtain maxc where maxc: "Constraint ?idx (max_capacity_invest_rule cap invest) = Inr maxc"
    by blast
  have "\<exists>cs. Constraint (List.product mins (TIMESTEPS m)) (min_investstorage_rule cap invest) = Inr cs"
  proof (rule Constraint_total)
    fix k assume k: "k \<in> set (List.product mins (TIMESTEPS m))"
    obtain n t where kk: "k = (n, t)" by (cases k)
    with k mins_sub have nt: "n \<in> set grp" "t \<in> set (TIMESTEPS m)" by auto
    with wf obtain x where "seq_at (capacity_min n) t = Inr x" by fastforce
    with capd [OF nt] invd [OF nt(1)] show "\<exists>c. min_investstorage_rule cap invest k = Inr c"
      unfolding kk by (simp add: min_investstorage_rule_def ebind_def)
  qed
  then obtain minc where
    minc: "Constraint (List.product mins (TIMESTEPS m)) (min_investstorage_rule cap invest) = Inr minc"
    by blast
  show ?thesis
    by (simp add: InvestmentStorage_create_def ebind_def mins cap invest bal ini inp outp maxc minc
        del: not_None_eq)
qed

lemma seq_at_defined:
  "(\<exists>x. seq_at s t = Inr x) \<longleftrightarrow> (case s of Repeated d \<Rightarrow> True | Listed xs \<Rightarrow> t < length xs)"
  by (cases s) auto

text \<open>
  C7. Every InvestmentStorage block that is built has, for every storage \<open>n\<close> of the group
  and every timestep \<open>t\<close>, the constraint \<^verbatim>\<open>capacity[n,t] <= capacity_max[t] * invest[n]\<close>.
  The constraint of the minimum is \<^verbatim>\<open>capacity[n,t] <= capacity_min[t] * invest[n]\<close>, an upper
  bound too; it exists exactly when the sum of \<^verbatim>\<open>capacity_min\<close> over the timesteps is
  positive, and then \<^verbatim>\<open>capacity_min\<close> is nonzero at some timestep. The block is built
  whenever every storage has an investment, its input and output flows have sizing
  variables in the InvestmentFlow block, its attributes are defined at every timestep
  with a nonzero outflow efficiency, and the previous timestep of every timestep is a
  timestep.
\<close>

theorem InvestmentStorage_capacity_bounds:
  "(\<forall>blk. InvestmentStorage_create m ifb (Some grp) = Inr (Some blk) \<longrightarrow>
     (\<forall>n\<in>set grp. \<forall>t\<in>set (TIMESTEPS m).
       (\<exists>cmax cmin cmins.
          seq_at (capacity_max n) t = Inr cmax \<and> seq_at (capacity_min n) t = Inr cmin
        \<and> emap (seq_at (capacity_min n)) (TIMESTEPS m) = Inr cmins
        \<and> max_capacity_invest blk (n, t) =
            Some (Rel_le (V (InvestmentStorage_capacity (label n) t))
                         (Mul (Num cmax) (V (InvestmentStorage_invest (label n)))))
        \<and> min_investstorage blk (n, t) =
            (if 0 < sum_list cmins
             then Some (Rel_le (V (InvestmentStorage_capacity (label n) t))
                               (Mul (Num cmin) (V (InvestmentStorage_invest (label n)))))
             else None)
        \<and> (0 < sum_list cmins \<longrightarrow>
              (\<exists>t'\<in>set (TIMESTEPS m). seq_at (capacity_min n) t' \<noteq> Inr 0)))))
 \<and> ((\<forall>n\<in>set grp.
        storage_investment n \<noteq> None
      \<and> (\<exists>i fb. INPUTS m (label n) = Some i \<and> (i, label n) \<in> set (FLOWS m)
             \<and> ifb = Some fb \<and> InvestmentFlow_invest_var fb (i, label n) \<noteq> None)
      \<and> (\<exists>j fb. OUTPUTS m (label n) = Some j \<and> (label n, j) \<in> set (FLOWS m)
             \<and> ifb = Some fb \<and> InvestmentFlow_invest_var fb (label n, j) \<noteq> None)
      \<and> (initial_capacity n \<noteq> None \<longrightarrow> TIMESTEPS m \<noteq> [])
      \<and> (\<forall>t\<in>set (TIMESTEPS m).
            (\<exists>p. previous_timesteps m t = Some p \<and> p \<in> set (TIMESTEPS m))
          \<and> (\<exists>x. seq_at (capacity_min n) t = Inr x)
          \<and> (\<exists>x. seq_at (capacity_max n) t = Inr x)
          \<and> (\<exists>x. seq_at (capacity_loss n) t = Inr x)
          \<and> (\<exists>x. seq_at (inflow_conversion_factor n) t = Inr x)
          \<and> (\<exists>x. seq_at (outflow_conversion_factor n) t = Inr x \<and> x \<noteq> 0)))
    \<longrightarrow> (\<exists>blk. InvestmentStorage_create m ifb (Some grp) = Inr (Some blk)))"
  (is "?completed \<and> ?completes")
proof (rule conjI)
  show ?completed
    by (intro allI impI ballI) (rule InvestmentStorage_create_bounds; assumption)
  show ?completes
    by (intro impI) (rule InvestmentStorage_create_completes, assumption)
qed

theorem InvestmentStorage_capacity_bounds_witness:
  "\<exists>blk. InvestmentStorage_create invest_example_model invest_flow_block_example
            (Some [invest_storage_example]) = Inr (Some blk)
   \<and> max_capacity_invest blk (invest_storage_example, 1)
       = Some (Rel_le (V (InvestmentStorage_capacity ''sto'' 1))
                      (Mul (Num 1) (V (InvestmentStorage_invest ''sto''))))
   \<and> min_investstorage blk (invest_storage_example, 1)
       = Some (Rel_le (V (InvestmentStorage_capacity ''sto'' 1))
                      (Mul (Num (1 / 5)) (V (InvestmentStorage_invest ''sto''))))"
proof -
  note inst = InvestmentStorage_capacity_bounds [of invest_example_model
      invest_flow_block_example "[invest_storage_example]"]
  from invest_flow_block_example_Some obtain fb where
    fb: "invest_flow_block_example = Some fb"
        "InvestmentFlow_invest_var fb (''bel'', ''sto'') \<noteq> None"
        "InvestmentFlow_invest_var fb (''sto'', ''bel'') \<noteq> None" by blast
  have wf: "\<forall>n\<in>set [invest_storage_example].
        storage_investment n \<noteq> None
      \<and> (\<exists>i fb. INPUTS invest_example_model (label n) = Some i
             \<and> (i, label n) \<in> set (FLOWS invest_example_model)
             \<and> invest_flow_block_example = Some fb \<and> InvestmentFlow_invest_var fb (i, label n) \<noteq> None)
      \<and> (\<exists>j fb. OUTPUTS invest_example_model (label n) = Some j
             \<and> (label n, j) \<in> set (FLOWS invest_example_model)
             \<and> invest_flow_block_example = Some fb \<and> InvestmentFlow_invest_var fb (label n, j) \<noteq> None)
      \<and> (initial_capacity n \<noteq> None \<longrightarrow> TIMESTEPS invest_example_model \<noteq> [])
      \<and> (\<forall>t\<in>set (TIMESTEPS invest_example_model).
            (\<exists>p. previous_timesteps invest_example_model t = Some p
                \<and> p \<in> set (TIMESTEPS invest_example_model))
          \<and> (\<exists>x. seq_at (capacity_min n) t = Inr x)
          \<and> (\<exists>x. seq_at (capacity_max n) t = Inr x)
          \<and> (\<exists>x. seq_at (capacity_loss n) t = Inr x)
          \<and> (\<exists>x. seq_at (inflow_conversion_factor n) t = Inr x)
          \<and> (\<exists>x. seq_at (outflow_conversion_factor n) t = Inr x \<and> x \<noteq> 0))"
    using fb(2,3) unfolding fb(1) seq_at_defined
    by (simp add: invest_example_model_def invest_storage_example_def periodic_previous_def)
  from inst [THEN conjunct2] wf
  have "\<exists>blk. InvestmentStorage_create invest_example_model invest_flow_block_example
            (Some [invest_storage_example]) = Inr (Some blk)"
    by (rule mp)
  then obtain blk where run: "InvestmentStorage_create invest_example_model invest_flow_block_example
            (Some [invest_storage_example]) = Inr (Some blk)" ..
  have n: "invest_storage_example \<in> set [invest_storage_example]" by simp
  have t: "1 \<in> set (TIMESTEPS invest_example_model)" by (simp add: invest_example_model_def)
  from inst [THEN conjunct1, rule_format, OF run n t]
  obtain cmax cmin cmins where
    r: "seq_at (capacity_max invest_storage_example) 1 = Inr cmax"
       "seq_at (capacity_min invest_storage_example) 1 = Inr cmin"
       "emap (seq_at (capacity_min invest_storage_example)) (TIMESTEPS invest_example_model) = Inr cmins"
       "max_capacity_invest blk (invest_storage_example, 1) =
        Some (Rel_le (V (InvestmentStorage_capacity (label invest_storage_example) 1))
                     (Mul (Num cmax) (V (InvestmentStorage_invest (label invest_storage_example)))))"
       "min_investstorage blk (invest_storage_example, 1) =
        (if 0 < sum_list cmins
         then Some (Rel_le (V (InvestmentStorage_capacity (label invest_storage_example) 1))
                           (Mul (Num cmin) (V (InvestmentStorage_invest (label invest_storage_example)))))
         else None)"
    by blast
  from r(1) have cmax: "cmax = 1" by (simp add: invest_storage_example_def)
  from r(2) have cmin: "cmin = 1 / 5" by (simp add: invest_storage_example_def)
  from r(3) have cmins: "cmins = [0, 1 / 5]"
    by (auto simp: invest_storage_example_def invest_example_model_def)
  have l: "label invest_storage_example = ''sto''" by (simp add: invest_storage_example_def)
  from r(4,5) have "max_capacity_invest blk (invest_storage_example, 1)
       = Some (Rel_le (V (InvestmentStorage_capacity ''sto'' 1))
                      (Mul (Num 1) (V (InvestmentStorage_invest ''sto''))))"
    "min_investstorage blk (invest_storage_example, 1)
       = Some (Rel_le (V (InvestmentStorage_capacity ''sto'' 1))
                      (Mul (Num (1 / 5)) (V (InvestmentStorage_invest ''sto''))))"
    unfolding cmax cmin cmins l by simp_all
  with run show ?thesis by blast
qed

subsection \<open>The Discrete block\<close>

lemma efilter_Inr_filter:
  "efilter p xs = Inr ys \<Longrightarrow> ys = filter (\<lambda>x. p x = Inr True) xs"
proof (induction xs arbitrary: ys)
  case Nil
  then show ?case by simp
next
  case (Cons x xs)
  from Cons.prems obtain b zs where b: "p x = Inr b" and zs: "efilter p xs = Inr zs"
    and ys: "ys = (if b then x # zs else zs)"
    by (auto split: sum.splits)
  from Cons.IH [OF zs] b ys show ?case by auto
qed

lemma has_start_costs_True:
  "has_start_costs (i, j, f) = Inr True \<longleftrightarrow>
     (case discrete f of None \<Rightarrow> False | Some d \<Rightarrow> start_costs d \<noteq> None)"
  by (cases "discrete f") (auto simp: has_start_costs_def ebind_def attr_of_def)

lemma Discrete_create_STARTCOSTFLOWS:
  assumes "Discrete_create m (Some grp) = Inr (Some blk)"
  shows "STARTCOSTFLOWS blk = map (\<lambda>(i, j, f). (i, j))
           (filter (\<lambda>(i, j, f). case discrete f of None \<Rightarrow> False | Some d \<Rightarrow> start_costs d \<noteq> None) grp)"
proof -
  from assms obtain gstart where g: "efilter has_start_costs grp = Inr gstart"
    and s: "STARTCOSTFLOWS blk = map (\<lambda>(i, o', f). (i, o')) gstart"
    by (auto simp: Discrete_create_def ebind_Inr_iff)
  have "(\<lambda>x. has_start_costs x = Inr True)
      = (\<lambda>(i, j, f). case discrete f of None \<Rightarrow> False | Some d \<Rightarrow> start_costs d \<noteq> None)"
    by (rule ext) (auto simp: has_start_costs_True simp del: not_None_eq)
  with efilter_Inr_filter [OF g] s show ?thesis by simp
qed

lemma Discrete_create_completes:
  assumes wf: "\<forall>(i, j, f)\<in>set grp.
        (\<exists>x. seq_at (flow_min f) 0 = Inr x) \<and> discrete f \<noteq> None
      \<and> (seq_at (flow_min f) 0 \<noteq> Inr 0 \<longrightarrow>
            (i, j) \<in> set (FLOWS m)
          \<and> (\<exists>f'. flows m (i, j) = Some f' \<and> nominal_value f' \<noteq> None
                \<and> (\<forall>t\<in>set (TIMESTEPS m). (\<exists>x. seq_at (flow_min f') t = Inr x)
                                          \<and> (\<exists>x. seq_at (flow_max f') t = Inr x))))"
  shows "\<exists>blk. Discrete_create m (Some grp) = Inr (Some blk)"
proof -
  have "\<exists>ys. efilter min_nonzero grp = Inr ys"
  proof (rule efilter_total)
    fix x assume x: "x \<in> set grp"
    obtain i j f where xx: "x = (i, j, f)" by (cases x)
    with wf x obtain a where "seq_at (flow_min f) 0 = Inr a" by fastforce
    then show "\<exists>b. min_nonzero x = Inr b" unfolding xx by (simp add: min_nonzero_def ebind_def)
  qed
  then obtain gmin where gmin: "efilter min_nonzero grp = Inr gmin" by blast
  have "\<exists>ys. efilter has_start_costs grp = Inr ys"
  proof (rule efilter_total)
    fix x assume x: "x \<in> set grp"
    obtain i j f where xx: "x = (i, j, f)" by (cases x)
    with wf x obtain d where "discrete f = Some d" by fastforce
    then show "\<exists>b. has_start_costs x = Inr b"
      unfolding xx by (simp add: has_start_costs_def ebind_def attr_of_def)
  qed
  then obtain gstart where gstart: "efilter has_start_costs grp = Inr gstart" by blast
  let ?FL = "map (\<lambda>(i, o', f). (i, o')) grp"
  let ?MIN = "map (\<lambda>(i, o', f). (i, o')) gmin"
  have "\<exists>vs. Var (List.product ?FL (TIMESTEPS m)) Binary no_bounds = Inr vs"
    by (rule Var_total) (simp add: no_bounds_def)
  then obtain status where status: "Var (List.product ?FL (TIMESTEPS m)) Binary no_bounds = Inr status"
    by blast
  have facts: "(i, j) \<in> set (FLOWS m) \<and> status ((i, j), t) \<noteq> None
      \<and> (\<exists>f' nv mn mx. flows m (i, j) = Some f' \<and> nominal_value f' = Some nv
            \<and> seq_at (flow_min f') t = Inr mn \<and> seq_at (flow_max f') t = Inr mx)"
    if k: "((i, j), t) \<in> set (List.product ?MIN (TIMESTEPS m))" for i j t
  proof -
    from k obtain f where f: "(i, j, f) \<in> set gmin" and t: "t \<in> set (TIMESTEPS m)" by auto
    from efilter_Inr [OF gmin] f have g: "(i, j, f) \<in> set grp" and nz: "min_nonzero (i, j, f) = Inr True"
      by auto
    from nz have "seq_at (flow_min f) 0 \<noteq> Inr 0" by (auto simp: min_nonzero_Inr)
    with wf g t have a: "(i, j) \<in> set (FLOWS m)"
      and b: "\<exists>f' nv mn mx. flows m (i, j) = Some f' \<and> nominal_value f' = Some nv
            \<and> seq_at (flow_min f') t = Inr mn \<and> seq_at (flow_max f') t = Inr mx"
      by fastforce+
    from g t have "((i, j), t) \<in> set (List.product ?FL (TIMESTEPS m))" by force
    with Var_Inr [OF status] have "status ((i, j), t) \<noteq> None" by fastforce
    with a b show ?thesis by blast
  qed
  have "\<exists>cs. Constraint (List.product ?MIN (TIMESTEPS m)) (minimum_flow_rule m status) = Inr cs"
  proof (rule Constraint_total)
    fix k assume k: "k \<in> set (List.product ?MIN (TIMESTEPS m))"
    obtain i j t where kk: "k = ((i, j), t)" by (cases k) auto
    from k have t: "t \<in> set (TIMESTEPS m)" unfolding kk by simp
    from facts [OF k [unfolded kk]] obtain d f' nv mn mx where
      "(i, j) \<in> set (FLOWS m)" "status ((i, j), t) = Some d" "flows m (i, j) = Some f'"
      "nominal_value f' = Some nv" "seq_at (flow_min f') t = Inr mn" by blast
    with t show "\<exists>c. minimum_flow_rule m status k = Inr c"
      unfolding kk
      by (simp add: minimum_flow_rule_def ebind_def var_at_def getitem_def number_def m_flow_def)
  qed
  then obtain minc where
    minc: "Constraint (List.product ?MIN (TIMESTEPS m)) (minimum_flow_rule m status) = Inr minc"
    by blast
  have "\<exists>cs. Constraint (List.product ?MIN (TIMESTEPS m)) (maximum_flow_rule m status) = Inr cs"
  proof (rule Constraint_total)
    fix k assume k: "k \<in> set (List.product ?MIN (TIMESTEPS m))"
    obtain i j t where kk: "k = ((i, j), t)" by (cases k) auto
    from k have t: "t \<in> set (TIMESTEPS m)" unfolding kk by simp
    from facts [OF k [unfolded kk]] obtain d f' nv mn mx where
      "(i, j) \<in> set (FLOWS m)" "status ((i, j), t) = Some d" "flows m (i, j) = Some f'"
      "nominal_value f' = Some nv" "seq_at (flow_max f') t = Inr mx" by blast
    with t show "\<exists>c. maximum_flow_rule m status k = Inr c"
      unfolding kk
      by (simp add: maximum_flow_rule_def ebind_def var_at_def getitem_def number_def m_flow_def)
  qed
  then obtain maxc where
    maxc: "Constraint (List.product ?MIN (TIMESTEPS m)) (maximum_flow_rule m status) = Inr maxc"
    by blast
  show ?thesis
    by (simp add: Discrete_create_def ebind_def gmin gstart status minc maxc)
qed

text \<open>
  C8, as the code has it. In every Discrete block that is built, the set \<^verbatim>\<open>MIN_FLOWS\<close> holds
  the edges of the group whose minimum is nonzero at index 0 (the test of the source is
  \<^verbatim>\<open>min[0] != 0\<close>). For an edge of that set and every timestep there are the two constraints
  \<^verbatim>\<open>status * min[t] * nominal_value >= flow\<close> and \<^verbatim>\<open>status * max[t] * nominal_value <= flow\<close>;
  an edge outside the set has neither. The block is built whenever every flow of the group
  has a discrete spec and a minimum at index 0, and every edge of \<^verbatim>\<open>MIN_FLOWS\<close> has a flow
  variable, a nominal value and a minimum and maximum at every timestep.
\<close>

theorem Discrete_min_max_coupling:
  "(\<forall>blk. Discrete_create m (Some grp) = Inr (Some blk) \<longrightarrow>
     (\<forall>t\<in>set (TIMESTEPS m). \<forall>i j.
        ((i, j) \<in> set (Discrete_MIN_FLOWS blk) \<longleftrightarrow>
            (\<exists>f x. (i, j, f) \<in> set grp \<and> seq_at (flow_min f) 0 = Inr x \<and> x \<noteq> 0))
      \<and> ((i, j) \<in> set (Discrete_MIN_FLOWS blk) \<longrightarrow>
          (\<exists>f mn mx nv. flows m (i, j) = Some f \<and> seq_at (flow_min f) t = Inr mn
             \<and> seq_at (flow_max f) t = Inr mx \<and> nominal_value f = Some nv
             \<and> minimum_flow blk ((i, j), t) =
                 Some (Rel_ge (Mul (Mul (V (Discrete_status i j t)) (Num mn)) (Num nv)) (V (flow i j t)))
             \<and> maximum_flow blk ((i, j), t) =
                 Some (Rel_le (Mul (Mul (V (Discrete_status i j t)) (Num mx)) (Num nv)) (V (flow i j t)))))
      \<and> ((i, j) \<notin> set (Discrete_MIN_FLOWS blk) \<longrightarrow>
          minimum_flow blk ((i, j), t) = None \<and> maximum_flow blk ((i, j), t) = None)))
 \<and> ((\<forall>(i, j, f)\<in>set grp.
        (\<exists>x. seq_at (flow_min f) 0 = Inr x) \<and> discrete f \<noteq> None
      \<and> (seq_at (flow_min f) 0 \<noteq> Inr 0 \<longrightarrow>
            (i, j) \<in> set (FLOWS m)
          \<and> (\<exists>f'. flows m (i, j) = Some f' \<and> nominal_value f' \<noteq> None
                \<and> (\<forall>t\<in>set (TIMESTEPS m). (\<exists>x. seq_at (flow_min f') t = Inr x)
                                          \<and> (\<exists>x. seq_at (flow_max f') t = Inr x)))))
    \<longrightarrow> (\<exists>blk. Discrete_create m (Some grp) = Inr (Some blk)))"
  (is "?completed \<and> ?completes")
proof (rule conjI)
  show ?completed
    by (intro allI impI ballI) (rule Discrete_create_coupling; assumption)
  show ?completes
    by (intro impI) (rule Discrete_create_completes, assumption)
qed

lemma discrete_example_wf:
  "\<forall>(i, j, f)\<in>set discrete_example_group.
        (\<exists>x. seq_at (flow_min f) 0 = Inr x) \<and> discrete f \<noteq> None
      \<and> (seq_at (flow_min f) 0 \<noteq> Inr 0 \<longrightarrow>
            (i, j) \<in> set (FLOWS discrete_example_model)
          \<and> (\<exists>f'. flows discrete_example_model (i, j) = Some f' \<and> nominal_value f' \<noteq> None
                \<and> (\<forall>t\<in>set (TIMESTEPS discrete_example_model).
                      (\<exists>x. seq_at (flow_min f') t = Inr x) \<and> (\<exists>x. seq_at (flow_max f') t = Inr x))))"
  unfolding seq_at_defined
  by (simp add: discrete_example_group_def discrete_example_model_def discrete_flow_example_def)

theorem Discrete_min_max_coupling_witness:
  "\<exists>blk. Discrete_create discrete_example_model (Some discrete_example_group) = Inr (Some blk)
   \<and> (''src'', ''bus'') \<in> set (Discrete_MIN_FLOWS blk)
   \<and> minimum_flow blk ((''src'', ''bus''), 1)
     = Some (Rel_ge (Mul (Mul (V (Discrete_status ''src'' ''bus'' 1)) (Num (1 / 2))) (Num 10))
                    (V (flow ''src'' ''bus'' 1)))
   \<and> maximum_flow blk ((''src'', ''bus''), 1)
     = Some (Rel_le (Mul (Mul (V (Discrete_status ''src'' ''bus'' 1)) (Num 1)) (Num 10))
                    (V (flow ''src'' ''bus'' 1)))"
proof -
  note inst = Discrete_min_max_coupling [of discrete_example_model discrete_example_group]
  from inst [THEN conjunct2] discrete_example_wf
  have "\<exists>blk. Discrete_create discrete_example_model (Some discrete_example_group) = Inr (Some blk)"
    by (rule mp)
  then obtain blk where
    run: "Discrete_create discrete_example_model (Some discrete_example_group) = Inr (Some blk)" ..
  have t: "1 \<in> set (TIMESTEPS discrete_example_model)" by (simp add: discrete_example_model_def)
  note at = inst [THEN conjunct1, rule_format, OF run t, of "''src''" "''bus''"]
  have "(''src'', ''bus'', discrete_flow_example) \<in> set discrete_example_group
      \<and> seq_at (flow_min discrete_flow_example) 0 = Inr (1 / 2) \<and> (1 / 2 :: real) \<noteq> 0"
    by (simp add: discrete_example_group_def discrete_flow_example_def)
  then have "\<exists>f x. (''src'', ''bus'', f) \<in> set discrete_example_group
      \<and> seq_at (flow_min f) 0 = Inr x \<and> x \<noteq> 0"
    by blast
  with at have mem: "(''src'', ''bus'') \<in> set (Discrete_MIN_FLOWS blk)" by blast
  with at obtain f mn mx nv where
    r: "flows discrete_example_model (''src'', ''bus'') = Some f" "seq_at (flow_min f) 1 = Inr mn"
       "seq_at (flow_max f) 1 = Inr mx" "nominal_value f = Some nv"
       "minimum_flow blk ((''src'', ''bus''), 1) =
          Some (Rel_ge (Mul (Mul (V (Discrete_status ''src'' ''bus'' 1)) (Num mn)) (Num nv))
                  (V (flow ''src'' ''bus'' 1)))"
       "maximum_flow blk ((''src'', ''bus''), 1) =
          Some (Rel_le (Mul (Mul (V (Discrete_status ''src'' ''bus'' 1)) (Num mx)) (Num nv))
                  (V (flow ''src'' ''bus'' 1)))"
    by blast
  from r(1) have f: "f = discrete_flow_example" by (simp add: discrete_example_model_def)
  from r(2,3,4) have "mn = 1 / 2" "mx = 1" "nv = 10"
    unfolding f by (simp_all add: discrete_flow_example_def)
  with run mem r(5,6) show ?thesis by blast
qed

text \<open>
  C8 as stated fails: a flow whose minimum is 0 at the first timestep and one half at the
  second has a nonzero declared minimum, and the block built for it has no constraint of
  the minimum or of the maximum at the second timestep.
\<close>

theorem Discrete_late_minimum_counterexample:
  "seq_at (flow_min discrete_flow_late_minimum) 1 = Inr (1 / 2)
   \<and> \<not> isl (Discrete_create discrete_late_minimum_model (Some discrete_late_minimum_group))
   \<and> minimum_flow (the (projr (Discrete_create discrete_late_minimum_model
         (Some discrete_late_minimum_group)))) ((''src'', ''bus''), 1) = None
   \<and> maximum_flow (the (projr (Discrete_create discrete_late_minimum_model
         (Some discrete_late_minimum_group)))) ((''src'', ''bus''), 1) = None"
  by (simp add: discrete_eval_defs discrete_late_minimum_model_def discrete_late_minimum_group_def
      discrete_flow_late_minimum_def discrete_example_model_def discrete_flow_example_def
      del: not_None_eq)

text \<open>
  C2, as the code has it. Start costs and gradients of a discrete flow raise no error and
  change nothing that the block builds except the set \<^verbatim>\<open>STARTCOSTFLOWS\<close>: the outcome of
  the build (the error, or the sets, variables and constraints) is the one of the same
  topology without start costs and gradients; \<^verbatim>\<open>STARTCOSTFLOWS\<close> lists exactly the edges of
  the group whose discrete spec declares start costs; and the block is built under
  conditions that mention neither start costs nor gradients.
\<close>

theorem Discrete_start_costs_and_gradients_ignored:
  "map_sum id (map_option (\<lambda>b. b\<lparr>STARTCOSTFLOWS := []\<rparr>)) (Discrete_create m (Some grp)) =
   map_sum id (map_option (\<lambda>b. b\<lparr>STARTCOSTFLOWS := []\<rparr>))
     (Discrete_create (m\<lparr>flows := map_option without_start_costs_and_gradients \<circ> flows m\<rparr>)
        (Some (map (\<lambda>(i, j, f). (i, j, without_start_costs_and_gradients f)) grp)))
 \<and> (\<forall>blk. Discrete_create m (Some grp) = Inr (Some blk) \<longrightarrow>
       STARTCOSTFLOWS blk = map (\<lambda>(i, j, f). (i, j))
         (filter (\<lambda>(i, j, f). case discrete f of None \<Rightarrow> False | Some d \<Rightarrow> start_costs d \<noteq> None)
            grp))
 \<and> ((\<forall>(i, j, f)\<in>set grp.
        (\<exists>x. seq_at (flow_min f) 0 = Inr x) \<and> discrete f \<noteq> None
      \<and> (seq_at (flow_min f) 0 \<noteq> Inr 0 \<longrightarrow>
            (i, j) \<in> set (FLOWS m)
          \<and> (\<exists>f'. flows m (i, j) = Some f' \<and> nominal_value f' \<noteq> None
                \<and> (\<forall>t\<in>set (TIMESTEPS m). (\<exists>x. seq_at (flow_min f') t = Inr x)
                                          \<and> (\<exists>x. seq_at (flow_max f') t = Inr x)))))
    \<longrightarrow> (\<exists>blk. Discrete_create m (Some grp) = Inr (Some blk)))"
  (is "?same \<and> ?listed \<and> ?completes")
proof (intro conjI)
  show ?same by (rule Discrete_create_without)
  show ?listed by (intro allI impI) (rule Discrete_create_STARTCOSTFLOWS)
  show ?completes by (intro impI) (rule Discrete_create_completes, assumption)
qed

theorem Discrete_start_costs_and_gradients_ignored_witness:
  "\<exists>blk. Discrete_create discrete_example_model (Some discrete_example_group) = Inr (Some blk)
   \<and> STARTCOSTFLOWS blk = [(''src'', ''bus'')]"
proof -
  note inst = Discrete_start_costs_and_gradients_ignored
      [of discrete_example_model discrete_example_group]
  from inst [THEN conjunct2, THEN conjunct2] discrete_example_wf
  have "\<exists>blk. Discrete_create discrete_example_model (Some discrete_example_group) = Inr (Some blk)"
    by (rule mp)
  then obtain blk where
    run: "Discrete_create discrete_example_model (Some discrete_example_group) = Inr (Some blk)" ..
  from inst [THEN conjunct2, THEN conjunct1, rule_format, OF run]
  have "STARTCOSTFLOWS blk = [(''src'', ''bus'')]"
    by (simp add: discrete_example_group_def discrete_flow_example_def)
  with run show ?thesis by blast
qed

end
